theory Spec2Isabelle
  imports Complex_Main "HOL-Library.AList" "HOL-Library.Sublist"
begin

section \<open>Conventions of the embedding\<close>

text \<open>
  The embedding follows \<^verbatim>\<open>backend/precision_limit_engine.py\<close> and
  \<^verbatim>\<open>backend/auto_remove_engine.py\<close>.
  \<^item> Python \<^verbatim>\<open>float\<close> values (wall-clock seconds, speeds, gains) are
    \<^typ>\<open>real\<close> numbers with exact arithmetic; Python \<^verbatim>\<open>int\<close> values (byte
    counts, limits, ids) are \<^typ>\<open>int\<close>.
  \<^item> \<^verbatim>\<open>time.time()\<close> is a parameter \<open>now\<close> of the function that reads it.
  \<^item> Calls into the client driver, the site helper and the store are parameters; a call
    that can raise returns \<open>py_error + 'a\<close>.
  \<^item> The four phase strings and the source tags are datatypes; log lines are not kept.
\<close>

datatype py_error = KeyError | ValueError | ExternalError

definition getd :: "'a \<Rightarrow> 'a option \<Rightarrow> 'a" where
  \<comment> \<open>\<^verbatim>\<open>d.get(key, default)\<close> on a key that may be absent\<close>
  "getd d x = (case x of None \<Rightarrow> d | Some v \<Rightarrow> v)"

definition py_int :: "real \<Rightarrow> int" where
  \<comment> \<open>\<^verbatim>\<open>int(x)\<close> of a float: truncation toward zero\<close>
  "py_int x = (if x < 0 then \<lceil>x\<rceil> else \<lfloor>x\<rfloor>)"

section \<open>LimitConfig\<close>

datatype phase = Warmup | Catch | Steady | Finish

record pid_params =
  kp :: real
  ki :: real
  kd :: real
  headroom :: real

definition FINISH_TIME :: real where "FINISH_TIME = 30"
definition STEADY_TIME :: real where "STEADY_TIME = 120"

definition PID_PARAMS :: "phase \<Rightarrow> pid_params" where
  "PID_PARAMS p = (case p of
      Warmup \<Rightarrow> \<lparr>kp = 0.3, ki = 0.05, kd = 0.02, headroom = 1.03\<rparr>
    | Catch \<Rightarrow> \<lparr>kp = 0.5, ki = 0.10, kd = 0.05, headroom = 1.02\<rparr>
    | Steady \<Rightarrow> \<lparr>kp = 0.6, ki = 0.15, kd = 0.08, headroom = 1.005\<rparr>
    | Finish \<Rightarrow> \<lparr>kp = 0.8, ki = 0.20, kd = 0.12, headroom = 1.001\<rparr>)"

definition MIN_LIMIT :: int where "MIN_LIMIT = 4096"
definition MAX_LIMIT :: int where "MAX_LIMIT = 500 * 1024 * 1024"
definition LOG_INTERVAL :: real where "LOG_INTERVAL = 20"

section \<open>Utility functions\<close>

definition safe_div :: "real \<Rightarrow> real \<Rightarrow> real \<Rightarrow> real" where
  "safe_div a b dflt = (if b = 0 \<or> \<bar>b\<bar> < 1 / 10 ^ (10::nat) then dflt else a / b)"

definition clamp :: "real \<Rightarrow> real \<Rightarrow> real \<Rightarrow> real" where
  "clamp v min_val max_val = max min_val (min max_val v)"

definition get_phase :: "real \<Rightarrow> bool \<Rightarrow> phase" where
  "get_phase time_left cycle_synced =
     (if \<not> cycle_synced then Warmup
      else if time_left \<le> FINISH_TIME then Finish
      else if time_left \<le> STEADY_TIME then Steady
      else Catch)"

section \<open>PIDController\<close>

record PIDController =
  pid_integral :: real
  pid_last_error :: real
  pid_last_time :: real
  pid_phase :: phase

definition PIDController_init :: PIDController where
  "PIDController_init =
     \<lparr>pid_integral = 0, pid_last_error = 0, pid_last_time = 0, pid_phase = Warmup\<rparr>"

definition set_phase :: "phase \<Rightarrow> PIDController \<Rightarrow> PIDController" where
  "set_phase p pid =
     (if p \<noteq> pid_phase pid
      then pid\<lparr>pid_integral := pid_integral pid * 0.5, pid_phase := p\<rparr>
      else pid)"

definition PID_update :: "real \<Rightarrow> real \<Rightarrow> real \<Rightarrow> PIDController \<Rightarrow> real \<times> PIDController" where
  "PID_update target actual now pid =
     (let params = PID_PARAMS (pid_phase pid);
          error = safe_div (target - actual) (max target 1) 0;
          dt = (if pid_last_time pid > 0 then now - pid_last_time pid else 1);
          integral = clamp (pid_integral pid + error * dt) (- 0.5) 0.5;
          derivative = (if dt > 0 then (error - pid_last_error pid) / dt else 0);
          output = 1.0 + kp params * error + ki params * integral + kd params * derivative
      in (clamp output 0.3 3.0,
          pid\<lparr>pid_last_time := now, pid_integral := integral, pid_last_error := error\<rparr>))"

definition PID_reset :: "PIDController \<Rightarrow> PIDController" where
  "PID_reset pid = pid\<lparr>pid_integral := 0, pid_last_error := 0, pid_last_time := 0\<rparr>"

section \<open>KalmanFilter\<close>

record KalmanFilter =
  k_speed :: real
  k_acceleration :: real
  k_p_speed :: real
  k_p_accel :: real
  k_last_time :: real
  k_q_speed :: real
  k_q_accel :: real
  k_r :: real

definition KalmanFilter_init :: KalmanFilter where
  "KalmanFilter_init =
     \<lparr>k_speed = 0, k_acceleration = 0, k_p_speed = 1, k_p_accel = 1, k_last_time = 0,
      k_q_speed = 0.1, k_q_accel = 0.05, k_r = 0.5\<rparr>"

definition Kalman_update :: "real \<Rightarrow> real \<Rightarrow> KalmanFilter \<Rightarrow> KalmanFilter" where
  "Kalman_update measured_speed now k =
     (if k_last_time k \<le> 0 then k\<lparr>k_speed := measured_speed, k_last_time := now\<rparr>
      else let dt = now - k_last_time k in
        if dt \<le> 0 then k
        else let predicted_speed = k_speed k + k_acceleration k * dt;
                 p_speed = k_p_speed k + (k_q_speed k + k_p_accel k * dt * dt);
                 p_accel = k_p_accel k + k_q_accel k;
                 innovation = measured_speed - predicted_speed;
                 g = p_speed / (p_speed + k_r k)
             in k\<lparr>k_last_time := now,
                  k_speed := predicted_speed + g * innovation,
                  k_acceleration := k_acceleration k + 0.1 * innovation / dt,
                  k_p_speed := p_speed * (1 - g),
                  k_p_accel := p_accel\<rparr>)"

definition predict_upload :: "KalmanFilter \<Rightarrow> real \<Rightarrow> real" where
  "predict_upload k time_left =
     k_speed k * time_left + 0.5 * k_acceleration k * time_left * time_left"

section \<open>TorrentLimitState\<close>

datatype source = Unknown | Site | QbApi | Estimated | Cached

text \<open>
  \<^verbatim>\<open>last_limit_reason\<close> is a formatted string in the source. The embedding keeps
  which format was used and the values printed into it: the number is
  \<^verbatim>\<open>int(required_speed/1024)\<close>, or \<^verbatim>\<open>int((progress-1)*100)\<close> in \<open>W_over\<close>, and
  the source tag is the one \<^verbatim>\<open>src_tag\<close> is looked up from.
\<close>

datatype reason =
    NoReason
  | Announcing
  | F_rate int source
  | S_rate int source
  | C_behind source
  | C_rate int source
  | W_over int source
  | W_fine source
  | W_mild source
  | W_idle source


record TorrentLimitState =
  hash :: string
  name :: string
  tracker :: string
  instance_id :: int
  cycle_start :: real
  cycle_uploaded_start :: int
  cycle_index :: int
  cycle_synced :: bool
  reannounce_time :: real
  cached_time_left :: real
  reannounce_source :: source
  target_speed :: int
  last_limit :: int
  last_limit_reason :: reason
  site_id :: "int option"
  tid :: "int option"
  pid :: PIDController
  kalman :: KalmanFilter
  last_log_time :: real

definition TorrentLimitState_default :: "string \<Rightarrow> TorrentLimitState" where
  \<comment> \<open>the dataclass defaults\<close>
  "TorrentLimitState_default h =
     \<lparr>hash = h, name = [], tracker = [], instance_id = 0,
      cycle_start = 0, cycle_uploaded_start = 0, cycle_index = 0, cycle_synced = False,
      reannounce_time = 0, cached_time_left = 1800, reannounce_source = Unknown,
      target_speed = 50 * 1024 * 1024, last_limit = - 1, last_limit_reason = NoReason,
      site_id = None, tid = None, pid = PIDController_init, kalman = KalmanFilter_init,
      last_log_time = 0\<rparr>"

definition state_get_phase :: "TorrentLimitState \<Rightarrow> real \<Rightarrow> phase" where
  \<comment> \<open>\<^verbatim>\<open>TorrentLimitState.get_phase\<close>\<close>
  "state_get_phase s now =
     (if \<not> cycle_synced s then Warmup
      else let time_left = (if reannounce_time s > 0 then max 0 (reannounce_time s - now)
                            else cached_time_left s)
           in get_phase time_left (cycle_synced s))"

definition get_cycle_uploaded :: "TorrentLimitState \<Rightarrow> int \<Rightarrow> int" where
  "get_cycle_uploaded s current_uploaded = max 0 (current_uploaded - cycle_uploaded_start s)"

definition new_cycle :: "real \<Rightarrow> int \<Rightarrow> real \<Rightarrow> TorrentLimitState \<Rightarrow> TorrentLimitState" where
  "new_cycle now current_uploaded time_left s =
     s\<lparr>cycle_start := now,
       cycle_uploaded_start := current_uploaded,
       cycle_index := cycle_index s + 1,
       pid := PID_reset (pid s),
       reannounce_time := now + time_left,
       cached_time_left := time_left\<rparr>"

section \<open>External collaborators of the governor\<close>

text \<open>
  The site helper, the client handle and the client manager are objects outside the
  engine. Each is a record of the answers its methods give during one tick.
\<close>

record tid_info =
  info_tid :: "int option"
  info_site_id :: "int option"

record site_helper =
  helper_enabled :: bool
  search_tid_by_hash :: "string \<Rightarrow> py_error + tid_info option"
  helper_get_reannounce_time :: "int \<Rightarrow> py_error + real option"

record helper_manager =
  helper_available :: bool
    \<comment> \<open>\<^verbatim>\<open>self.site_helper_manager and PT_HELPER_AVAILABLE\<close>\<close>
  get_helper_by_tracker :: "string \<Rightarrow> py_error + site_helper option"

record qb_client =
  torrents_properties :: "string \<Rightarrow> py_error + real option"
    \<comment> \<open>the \<^verbatim>\<open>reannounce\<close> entry of the properties, when the call returns\<close>

record stats =
  site_success :: nat
  qb_api_success :: nat
  fallback_count :: nat
  torrents_controlled :: nat

section \<open>The reannounce oracle\<close>

definition truthy_id :: "int option \<Rightarrow> bool" where
  \<comment> \<open>Python truth value of an optional integer: neither \<^verbatim>\<open>None\<close> nor 0\<close>
  "truthy_id t = (case t of None \<Rightarrow> False | Some v \<Rightarrow> v \<noteq> 0)"

definition site_lookup_tid :: "site_helper \<Rightarrow> string \<Rightarrow> TorrentLimitState \<Rightarrow> py_error + TorrentLimitState" where
  \<comment> \<open>\<^verbatim>\<open>_get_reannounce_time\<close>, lines 541-545\<close>
  "site_lookup_tid helper h s =
     (if tid s = None then
        (case search_tid_by_hash helper h of
           Inl e \<Rightarrow> Inl e
         | Inr None \<Rightarrow> Inr s
         | Inr (Some info) \<Rightarrow>
             if truthy_id (info_tid info)
             then Inr (s\<lparr>tid := info_tid info, site_id := info_site_id info\<rparr>)
             else Inr s)
      else Inr s)"

definition site_probe :: "helper_manager \<Rightarrow> string \<Rightarrow> string \<Rightarrow> TorrentLimitState \<Rightarrow> real option \<times> TorrentLimitState" where
  \<comment> \<open>\<^verbatim>\<open>_get_reannounce_time\<close>, method 1 (lines 537-553): the value the site path returns
      with, if any, and the state with the \<^verbatim>\<open>tid\<close> cache as the path leaves it; an
      exception ends the path\<close>
  "site_probe mgr h tr s =
     (if \<not> helper_available mgr then (None, s)
      else case get_helper_by_tracker mgr tr of
          Inl e \<Rightarrow> (None, s)
        | Inr None \<Rightarrow> (None, s)
        | Inr (Some helper) \<Rightarrow>
            if \<not> helper_enabled helper then (None, s)
            else (case site_lookup_tid helper h s of
                Inl e \<Rightarrow> (None, s)
              | Inr s1 \<Rightarrow>
                  (case tid s1 of
                     None \<Rightarrow> (None, s1)
                   | Some t \<Rightarrow>
                       if t = 0 then (None, s1)
                       else (case helper_get_reannounce_time helper t of
                           Inl e \<Rightarrow> (None, s1)
                         | Inr None \<Rightarrow> (None, s1)
                         | Inr (Some reannounce) \<Rightarrow>
                             if reannounce > 0 then (Some reannounce, s1) else (None, s1)))))"

definition qb_probe :: "qb_client \<Rightarrow> string \<Rightarrow> real option" where
  \<comment> \<open>\<^verbatim>\<open>_get_reannounce_time\<close>, method 2 (lines 556-564): the accepted value, if any\<close>
  "qb_probe client h =
     (case torrents_properties client h of
        Inl e \<Rightarrow> None
      | Inr props \<Rightarrow>
          let reannounce = getd 0 props
          in if 0 < reannounce \<and> reannounce < 86400 then Some reannounce else None)"

definition get_reannounce_time ::
  "helper_manager \<Rightarrow> qb_client \<Rightarrow> string \<Rightarrow> string \<Rightarrow> real
     \<Rightarrow> TorrentLimitState \<times> stats \<Rightarrow> (real \<times> source) \<times> TorrentLimitState \<times> stats" where
  "get_reannounce_time mgr client h tr now ss =
     (let s = fst ss; st = snd ss;
          time_left = cached_time_left s
      in case site_probe mgr h tr s of
          (Some reannounce, s1) \<Rightarrow>
            ((reannounce, Site), s1, st\<lparr>site_success := site_success st + 1\<rparr>)
        | (None, s1) \<Rightarrow>
            (case qb_probe client h of
               Some reannounce \<Rightarrow>
                 ((reannounce, QbApi), s1\<lparr>reannounce_time := now + reannounce\<rparr>,
                  st\<lparr>qb_api_success := qb_api_success st + 1\<rparr>)
             | None \<Rightarrow>
                 if reannounce_time s1 > 0
                 then ((max 0 (reannounce_time s1 - now), Estimated), s1,
                       st\<lparr>fallback_count := fallback_count st + 1\<rparr>)
                 else ((time_left, Cached), s1,
                       st\<lparr>fallback_count := fallback_count st + 1\<rparr>)))"

section \<open>Rate computation\<close>

definition phase_limit ::
  "phase \<Rightarrow> TorrentLimitState \<Rightarrow> real \<Rightarrow> real \<Rightarrow> real \<Rightarrow> real \<Rightarrow> real \<Rightarrow> real \<Rightarrow> int \<times> reason" where
  \<comment> \<open>\<^verbatim>\<open>_calculate_limit\<close>, lines 593-635: the branch on \<^verbatim>\<open>phase\<close>\<close>
  "phase_limit ph s time_left target_total cycle_uploaded progress required_speed pid_output =
     (let params = PID_PARAMS ph;
          hr = headroom params;
          src_tag = reannounce_source s
      in case ph of
          Finish \<Rightarrow>
            let predicted_ratio =
                  safe_div (cycle_uploaded + predict_upload (kalman s) time_left) target_total 0;
                correction =
                  (if predicted_ratio > 1.002 then max 0.8 (1 - (predicted_ratio - 1) * 3)
                   else if predicted_ratio < 0.998 then min 1.2 (1 + (1 - predicted_ratio) * 3)
                   else 1.0)
            in (py_int (required_speed * pid_output * correction),
                F_rate (py_int (required_speed / 1024)) src_tag)
        | Steady \<Rightarrow>
            (py_int (required_speed * hr * pid_output),
             S_rate (py_int (required_speed / 1024)) src_tag)
        | Catch \<Rightarrow>
            if required_speed > real_of_int (target_speed s * 5) then (- 1, C_behind src_tag)
            else (py_int (required_speed * hr * pid_output),
                  C_rate (py_int (required_speed / 1024)) src_tag)
        | Warmup \<Rightarrow>
            if progress \<ge> 1.0 then (MIN_LIMIT, W_over (py_int ((progress - 1) * 100)) src_tag)
            else if progress \<ge> 0.8 then (py_int (required_speed * 1.01 * pid_output), W_fine src_tag)
            else if progress \<ge> 0.5 then (py_int (required_speed * 1.05), W_mild src_tag)
            else (- 1, W_idle src_tag))"

definition clamp_round :: "phase \<Rightarrow> int \<Rightarrow> int" where
  \<comment> \<open>\<^verbatim>\<open>_calculate_limit\<close>, lines 637-640\<close>
  "clamp_round ph limit =
     (if limit > 0
      then let limit1 = max MIN_LIMIT (min MAX_LIMIT limit);
               step = (if ph = Finish then 1024 else 4096)
           in ((limit1 + step div 2) div step) * step
      else limit)"

definition calculate_limit ::
  "TorrentLimitState \<Rightarrow> int \<Rightarrow> real \<Rightarrow> real \<Rightarrow> (int \<times> reason) \<times> TorrentLimitState" where
  "calculate_limit s current_uploaded now time_left =
     (let ph = state_get_phase s now;
          s1 = s\<lparr>pid := set_phase ph (pid s)\<rparr>;
          elapsed = now - cycle_start s1;
          total_cycle_time = elapsed + time_left;
          target_total = real_of_int (target_speed s1) * total_cycle_time;
          cycle_uploaded = real_of_int (get_cycle_uploaded s1 current_uploaded);
          need_upload = max 0 (target_total - cycle_uploaded);
          progress = safe_div cycle_uploaded target_total 0
      in if time_left \<le> 0 then ((- 1, Announcing), s1)
         else let required_speed = need_upload / time_left;
                  upd = PID_update target_total cycle_uploaded now (pid s1);
                  pid_output = fst upd;
                  s2 = s1\<lparr>pid := snd upd\<rparr>;
                  lr = phase_limit ph s2 time_left target_total cycle_uploaded progress
                         required_speed pid_output
              in ((clamp_round ph (fst lr), snd lr), s2))"

section \<open>Rows of the client driver and of the store\<close>

text \<open>
  A torrent, a speed rule, a site and a saved state are dictionaries in the source. Each is
  a record here; an entry that the source reads with \<^verbatim>\<open>.get\<close> is optional.
\<close>

record torrent =
  t_hash :: "string option"
  t_name :: "string option"
  t_state :: "string option"
  t_tracker :: "string option"
  t_size :: "int option"
  t_uploaded :: "int option"
  t_upspeed :: "int option"
  t_progress :: "real option"
  t_ratio :: "real option"
  t_seeding_time :: "int option"
  t_last_activity :: "int option"

record speed_rule =
  r_enabled :: bool
  r_site_id :: "int option"
  r_target_speed_kib :: "int option"
  r_safety_margin :: "real option"

record pt_site =
  s_id :: "int option"
  s_tracker_keyword :: "string option"
  s_url :: "string option"

record qb_instance =
  i_enabled :: bool
  i_id :: int

record saved_row =
  row_hash :: "string option"
  row_name :: "string option"
  row_tracker :: "string option"
  row_instance_id :: "int option"
  row_site_id :: "int option"
  row_tid :: "int option"
  row_cycle_index :: "int option"
  row_cycle_start :: "real option"
  row_cycle_uploaded_start :: "int option"
  row_cycle_synced :: "bool option"
  row_target_speed :: "int option"
  row_last_limit :: "int option"
  row_reannounce_time :: "real option"
  row_cached_time_left :: "real option"
  row_updated_at :: "real option"

record db =
  config :: "(string \<times> string) list"
  speed_rules :: "py_error + speed_rule list"
  pt_sites :: "py_error + pt_site list"
  qb_instances :: "py_error + qb_instance list"
  limit_states :: "(string \<times> saved_row) list"

definition save_torrent_limit_state :: "real \<Rightarrow> saved_row \<Rightarrow> db \<Rightarrow> db" where
  \<comment> \<open>Modelled from the spec: the store's \<^verbatim>\<open>save_torrent_limit_state\<close> (the store is not
      part of the source files). The persisted-state table is keyed by the torrent hash,
      and a saved row carries the time of the save as \<^verbatim>\<open>updated_at\<close>.\<close>
  "save_torrent_limit_state t row d =
     d\<lparr>limit_states :=
         AList.update (getd [] (row_hash row)) (row\<lparr>row_updated_at := Some t\<rparr>) (limit_states d)\<rparr>"

definition get_all_torrent_limit_states :: "db \<Rightarrow> saved_row list" where
  \<comment> \<open>Modelled from the spec: the store's \<^verbatim>\<open>get_all_torrent_limit_states\<close>, every row
      of the persisted-state table.\<close>
  "get_all_torrent_limit_states d = map snd (limit_states d)"

record qb_manager =
  get_client :: "int \<Rightarrow> qb_client option"
  get_torrents :: "int \<Rightarrow> py_error + torrent list"
  set_upload_limit :: "int \<Rightarrow> string \<Rightarrow> int \<Rightarrow> py_error + unit"

section \<open>PrecisionLimitEngine\<close>

text \<open>
  \<open>rpc_log\<close> is not a field of the source: it lists the \<^verbatim>\<open>set_upload_limit\<close> calls
  the engine has issued, oldest first, as (instance, hash, limit).
\<close>

record engine =
  states :: "(string \<times> TorrentLimitState) list"
  eng_stats :: stats
  last_save_time :: real
  rpc_log :: "(int \<times> string \<times> int) list"

definition save_interval :: real where "save_interval = 180"

definition restore_row :: "saved_row \<Rightarrow> string \<Rightarrow> TorrentLimitState" where
  \<comment> \<open>\<^verbatim>\<open>_restore_states_from_db\<close>, lines 273-288\<close>
  "restore_row data h =
     (TorrentLimitState_default h)
       \<lparr>name := getd [] (row_name data),
        tracker := getd [] (row_tracker data),
        instance_id := getd 0 (row_instance_id data),
        site_id := row_site_id data,
        tid := row_tid data,
        cycle_index := getd 0 (row_cycle_index data),
        cycle_start := getd 0 (row_cycle_start data),
        cycle_uploaded_start := getd 0 (row_cycle_uploaded_start data),
        cycle_synced := getd False (row_cycle_synced data),
        target_speed := getd 0 (row_target_speed data),
        last_limit := getd (- 1) (row_last_limit data),
        reannounce_time := getd 0 (row_reannounce_time data),
        cached_time_left := getd 1800 (row_cached_time_left data)\<rparr>"

fun restore_rows :: "real \<Rightarrow> saved_row list \<Rightarrow> (string \<times> TorrentLimitState) list
    \<Rightarrow> (string \<times> TorrentLimitState) list" where
  \<comment> \<open>the loop of \<^verbatim>\<open>_restore_states_from_db\<close>; a row without \<^verbatim>\<open>hash\<close> raises
      \<^verbatim>\<open>KeyError\<close>, which ends the loop and keeps what was restored before it\<close>
  "restore_rows now [] sts = sts"
| "restore_rows now (data # rest) sts =
     (if now - getd 0 (row_updated_at data) > 86400 then restore_rows now rest sts
      else case row_hash data of
          None \<Rightarrow> sts
        | Some h \<Rightarrow> restore_rows now rest (AList.update h (restore_row data h) sts))"

definition restore_states_from_db :: "db \<Rightarrow> real \<Rightarrow> engine \<Rightarrow> engine" where
  "restore_states_from_db d now eng =
     eng\<lparr>states := restore_rows now (get_all_torrent_limit_states d) (states eng)\<rparr>"

definition engine_init :: "db \<Rightarrow> real \<Rightarrow> engine" where
  \<comment> \<open>\<^verbatim>\<open>__init__\<close>\<close>
  "engine_init d now =
     restore_states_from_db d now
       \<lparr>states = [],
        eng_stats = \<lparr>site_success = 0, qb_api_success = 0, fallback_count = 0,
                     torrents_controlled = 0\<rparr>,
        last_save_time = 0,
        rpc_log = []\<rparr>"

definition state_row :: "TorrentLimitState \<Rightarrow> saved_row" where
  \<comment> \<open>the dictionary \<^verbatim>\<open>_save_states_to_db\<close> hands to the store, lines 301-316\<close>
  "state_row s =
     \<lparr>row_hash = Some (hash s),
      row_name = Some (name s),
      row_tracker = Some (tracker s),
      row_instance_id = Some (instance_id s),
      row_site_id = site_id s,
      row_tid = tid s,
      row_cycle_index = Some (cycle_index s),
      row_cycle_start = Some (cycle_start s),
      row_cycle_uploaded_start = Some (cycle_uploaded_start s),
      row_cycle_synced = Some (cycle_synced s),
      row_target_speed = Some (target_speed s),
      row_last_limit = Some (last_limit s),
      row_reannounce_time = Some (reannounce_time s),
      row_cached_time_left = Some (cached_time_left s),
      row_updated_at = None\<rparr>"

definition save_states_to_db :: "real \<Rightarrow> engine \<times> db \<Rightarrow> engine \<times> db" where
  "save_states_to_db now ed =
     (let eng = fst ed; d = snd ed
      in (eng\<lparr>last_save_time := now\<rparr>,
          fold (\<lambda>(h, s). save_torrent_limit_state now (state_row s)) (states eng) d))"

subsection \<open>Selecting torrents and rules\<close>

definition lower_char :: "char \<Rightarrow> char" where
  "lower_char c =
     (let n = (of_char c :: nat) in if 65 \<le> n \<and> n \<le> 90 then char_of (n + 32) else c)"

definition lower :: "string \<Rightarrow> string" where
  \<comment> \<open>\<^verbatim>\<open>str.lower\<close> on ASCII text\<close>
  "lower s = map lower_char s"

definition should_limit_torrent :: "torrent \<Rightarrow> bool" where
  "should_limit_torrent t =
     (let state = lower (getd [] (t_state t))
      in if getd 0 (t_upspeed t) > 0 then True
         else if state = [] then False
         else if sublist ''upload'' state \<or> sublist ''seed'' state then True
         else suffix ''up'' state)"

fun find_rule_sites :: "(string \<Rightarrow> string option) \<Rightarrow> string \<Rightarrow> (int option \<times> speed_rule) list
    \<Rightarrow> pt_site list \<Rightarrow> speed_rule option" where
  \<comment> \<open>the loop of \<^verbatim>\<open>_find_rule\<close> and its final \<^verbatim>\<open>rules.get(None)\<close>; the first
      argument is \<^verbatim>\<open>urlparse(url).hostname\<close> of the standard library\<close>
  "find_rule_sites hostname tracker_lower rules [] = map_of rules None"
| "find_rule_sites hostname tracker_lower rules (site # sites) =
     (let keyword = getd [] (s_tracker_keyword site);
          site_id = s_id site
      in case map_of rules site_id of
          None \<Rightarrow> find_rule_sites hostname tracker_lower rules sites
        | Some rule \<Rightarrow>
            if keyword \<noteq> [] \<and> sublist (lower keyword) tracker_lower then Some rule
            else let site_url = getd [] (s_url site);
                     site_host = lower (getd [] (hostname site_url))
                 in if site_url \<noteq> [] \<and> site_host \<noteq> [] \<and> sublist site_host tracker_lower
                    then Some rule
                    else find_rule_sites hostname tracker_lower rules sites)"

definition find_rule :: "(string \<Rightarrow> string option) \<Rightarrow> db \<Rightarrow> torrent
    \<Rightarrow> (int option \<times> speed_rule) list \<Rightarrow> py_error + speed_rule option" where
  "find_rule hostname d t rules =
     (let tracker_lower = lower (getd [] (t_tracker t))
      in case pt_sites d of
          Inl e \<Rightarrow> Inl e
        | Inr sites \<Rightarrow> Inr (find_rule_sites hostname tracker_lower rules sites))"

subsection \<open>One torrent on one tick\<close>

definition rule_target_speed :: "speed_rule \<Rightarrow> int" where
  \<comment> \<open>\<^verbatim>\<open>_process_torrent\<close>, lines 469-471 and again 486-488\<close>
  "rule_target_speed rule =
     (let target_kib = getd 51200 (r_target_speed_kib rule);
          safety = getd 0.98 (r_safety_margin rule)
      in py_int (real_of_int (target_kib * 1024) * safety))"

definition initial_state :: "int \<Rightarrow> string \<Rightarrow> torrent \<Rightarrow> speed_rule \<Rightarrow> real \<Rightarrow> TorrentLimitState" where
  \<comment> \<open>\<^verbatim>\<open>_process_torrent\<close>, lines 473-481: the state created for an unknown hash\<close>
  "initial_state inst h t rule now =
     (TorrentLimitState_default h)
       \<lparr>name := take 30 (getd [] (t_name t)),
        tracker := getd [] (t_tracker t),
        instance_id := inst,
        cycle_start := now,
        cycle_uploaded_start := getd 0 (t_uploaded t),
        target_speed := rule_target_speed rule\<rparr>"

definition apply_limit :: "qb_manager \<Rightarrow> int \<Rightarrow> string \<Rightarrow> int \<times> reason
    \<Rightarrow> TorrentLimitState \<times> (int \<times> string \<times> int) list
    \<Rightarrow> TorrentLimitState \<times> (int \<times> string \<times> int) list" where
  \<comment> \<open>\<^verbatim>\<open>_process_torrent\<close>, lines 518-524\<close>
  "apply_limit qbm inst h lr sl =
     (let s = fst sl; calls = snd sl; new_limit = fst lr; reason = snd lr
      in if new_limit \<noteq> last_limit s
         then (case set_upload_limit qbm inst h new_limit of
                 Inr u \<Rightarrow> (s\<lparr>last_limit := new_limit, last_limit_reason := reason\<rparr>,
                           calls @ [(inst, h, new_limit)])
               | Inl e \<Rightarrow> (s, calls @ [(inst, h, new_limit)]))
         else (s, calls))"

definition sync_cycle :: "real \<Rightarrow> int \<Rightarrow> real \<Rightarrow> TorrentLimitState \<Rightarrow> TorrentLimitState" where
  \<comment> \<open>\<^verbatim>\<open>_process_torrent\<close>, lines 504-512\<close>
  "sync_cycle now current_uploaded time_left s =
     (let s1 = (if cycle_synced s \<and> time_left > cached_time_left s + 30
                then new_cycle now current_uploaded time_left s else s);
          s2 = s1\<lparr>cached_time_left := time_left\<rparr>
      in if \<not> cycle_synced s2 \<and> time_left > 0
         then s2\<lparr>cycle_synced := True, cached_time_left := time_left\<rparr>
         else s2)"

definition prepare_state :: "int \<Rightarrow> torrent \<Rightarrow> speed_rule \<Rightarrow> real \<Rightarrow> TorrentLimitState \<Rightarrow> TorrentLimitState" where
  \<comment> \<open>\<^verbatim>\<open>_process_torrent\<close>, lines 485-497: the state as the oracle is asked\<close>
  "prepare_state inst t rule now s =
     (let s1 = s\<lparr>target_speed := rule_target_speed rule, tracker := getd [] (t_tracker t),
                 instance_id := inst\<rparr>;
          current_speed = getd 0 (t_upspeed t)
      in s1\<lparr>kalman := Kalman_update (real_of_int current_speed) now (kalman s1)\<rparr>)"

definition tick_limit :: "helper_manager \<Rightarrow> qb_client \<Rightarrow> int \<Rightarrow> string \<Rightarrow> torrent \<Rightarrow> speed_rule
    \<Rightarrow> real \<Rightarrow> TorrentLimitState \<times> stats \<Rightarrow> (int \<times> reason) \<times> TorrentLimitState \<times> stats" where
  \<comment> \<open>\<^verbatim>\<open>_process_torrent\<close>, lines 483-515, on the state of the torrent: up to the computed
      \<^verbatim>\<open>new_limit, reason\<close>\<close>
  "tick_limit mgr client inst h t rule now ss =
     (let s2 = prepare_state inst t rule now (fst ss);
          current_uploaded = getd 0 (t_uploaded t);
          r = get_reannounce_time mgr client h (getd [] (t_tracker t)) now (s2, snd ss);
          time_left = fst (fst r);
          s3 = (fst (snd r))\<lparr>reannounce_source := snd (fst r)\<rparr>;
          s4 = sync_cycle now current_uploaded time_left s3;
          c = calculate_limit s4 current_uploaded now time_left
      in (fst c, snd c, snd (snd r)))"

definition process_state :: "helper_manager \<Rightarrow> qb_manager \<Rightarrow> int \<Rightarrow> qb_client \<Rightarrow> string
    \<Rightarrow> torrent \<Rightarrow> speed_rule \<Rightarrow> real
    \<Rightarrow> TorrentLimitState \<times> stats \<times> (int \<times> string \<times> int) list
    \<Rightarrow> TorrentLimitState \<times> stats \<times> (int \<times> string \<times> int) list" where
  \<comment> \<open>\<^verbatim>\<open>_process_torrent\<close>, lines 483-529, on the state of the torrent\<close>
  "process_state mgr qbm inst client h t rule now ssl =
     (let c = tick_limit mgr client inst h t rule now (fst ssl, fst (snd ssl));
          a = apply_limit qbm inst h (fst c) (fst (snd c), snd (snd ssl));
          s5 = fst a
      in ((if now - last_log_time s5 > LOG_INTERVAL then s5\<lparr>last_log_time := now\<rparr> else s5),
          snd (snd c), snd a))"

definition process_torrent :: "helper_manager \<Rightarrow> qb_manager \<Rightarrow> int \<Rightarrow> qb_client \<Rightarrow> torrent
    \<Rightarrow> speed_rule \<Rightarrow> real \<Rightarrow> engine \<Rightarrow> py_error + engine" where
  \<comment> \<open>\<^verbatim>\<open>torrent['hash']\<close> raises \<^verbatim>\<open>KeyError\<close> on a torrent without a hash, before
      anything is changed\<close>
  "process_torrent mgr qbm inst client t rule now eng =
     (case t_hash t of
        None \<Rightarrow> Inl KeyError
      | Some h \<Rightarrow>
          let s0 = (case map_of (states eng) h of
                      None \<Rightarrow> initial_state inst h t rule now
                    | Some s \<Rightarrow> s);
              p = process_state mgr qbm inst client h t rule now (s0, eng_stats eng, rpc_log eng)
          in Inr (eng\<lparr>states := AList.update h (fst p) (states eng),
                      eng_stats := fst (snd p),
                      rpc_log := snd (snd p)\<rparr>))"

subsection \<open>Consecutive ticks on one torrent\<close>

text \<open>
  Between two ticks on a torrent nothing else writes its state. A tick is given by what the
  outside answers on it.
\<close>

record tick =
  tk_helpers :: helper_manager
  tk_client :: qb_client
  tk_torrent :: torrent
  tk_rule :: speed_rule
  tk_now :: real

fun run_ticks :: "qb_manager \<Rightarrow> int \<Rightarrow> string \<Rightarrow> tick list
    \<Rightarrow> TorrentLimitState \<times> stats \<times> (int \<times> string \<times> int) list
    \<Rightarrow> TorrentLimitState \<times> stats \<times> (int \<times> string \<times> int) list" where
  "run_ticks qbm inst h [] x = x"
| "run_ticks qbm inst h (k # ks) x =
     run_ticks qbm inst h ks
       (process_state (tk_helpers k) qbm inst (tk_client k) h (tk_torrent k) (tk_rule k) (tk_now k) x)"

fun ticks_compute :: "int \<Rightarrow> qb_manager \<Rightarrow> int \<Rightarrow> string \<Rightarrow> tick list
    \<Rightarrow> TorrentLimitState \<times> stats \<times> (int \<times> string \<times> int) list \<Rightarrow> bool" where
  \<comment> \<open>every tick of the list computes the limit \<open>L\<close>\<close>
  "ticks_compute L qbm inst h [] x = True"
| "ticks_compute L qbm inst h (k # ks) x =
     (fst (fst (tick_limit (tk_helpers k) (tk_client k) inst h (tk_torrent k) (tk_rule k) (tk_now k)
                 (fst x, fst (snd x)))) = L
      \<and> ticks_compute L qbm inst h ks
           (process_state (tk_helpers k) qbm inst (tk_client k) h (tk_torrent k) (tk_rule k)
              (tk_now k) x))"

subsection \<open>One tick over all clients\<close>

record env =
  env_helpers :: helper_manager
  env_qb :: qb_manager
  env_hostname :: "string \<Rightarrow> string option"

fun process_torrents :: "env \<Rightarrow> db \<Rightarrow> (int option \<times> speed_rule) list \<Rightarrow> int \<Rightarrow> qb_client \<Rightarrow> real
    \<Rightarrow> torrent list \<Rightarrow> engine \<times> nat \<Rightarrow> py_error option \<times> engine \<times> nat" where
  \<comment> \<open>\<^verbatim>\<open>_process_all\<close>, lines 428-436; an exception leaves the loop with the engine as
      it is at that point\<close>
  "process_torrents ev d rules inst client now [] ec = (None, ec)"
| "process_torrents ev d rules inst client now (t # ts) ec =
     (if \<not> should_limit_torrent t then process_torrents ev d rules inst client now ts ec
      else case find_rule (env_hostname ev) d t rules of
          Inl e \<Rightarrow> (Some e, ec)
        | Inr None \<Rightarrow> process_torrents ev d rules inst client now ts ec
        | Inr (Some rule) \<Rightarrow>
            (case process_torrent (env_helpers ev) (env_qb ev) inst client t rule now (fst ec) of
               Inl e \<Rightarrow> (Some e, ec)
             | Inr eng \<Rightarrow> process_torrents ev d rules inst client now ts (eng, snd ec + 1)))"

fun process_instances :: "env \<Rightarrow> db \<Rightarrow> (int option \<times> speed_rule) list \<Rightarrow> real
    \<Rightarrow> qb_instance list \<Rightarrow> engine \<times> nat \<Rightarrow> py_error option \<times> engine \<times> nat" where
  \<comment> \<open>\<^verbatim>\<open>_process_all\<close>, lines 409-436\<close>
  "process_instances ev d rules now [] ec = (None, ec)"
| "process_instances ev d rules now (instance # rest) ec =
     (if \<not> i_enabled instance then process_instances ev d rules now rest ec
      else case get_client (env_qb ev) (i_id instance) of
          None \<Rightarrow> process_instances ev d rules now rest ec
        | Some client \<Rightarrow>
            (case get_torrents (env_qb ev) (i_id instance) of
               Inl e \<Rightarrow> process_instances ev d rules now rest ec
             | Inr torrents \<Rightarrow>
                 (case process_torrents ev d rules (i_id instance) client now torrents ec of
                    (Some e, ec1) \<Rightarrow> (Some e, ec1)
                  | (None, ec1) \<Rightarrow> process_instances ev d rules now rest ec1)))"

definition enabled_rules_of :: "speed_rule list \<Rightarrow> (int option \<times> speed_rule) list" where
  \<comment> \<open>\<^verbatim>\<open>_process_all\<close>, lines 389-392\<close>
  "enabled_rules_of rules =
     fold (\<lambda>rule acc. if r_enabled rule then AList.update (r_site_id rule) rule acc else acc)
       rules []"

definition process_all :: "env \<Rightarrow> db \<Rightarrow> real \<Rightarrow> engine \<Rightarrow> py_error option \<times> engine" where
  \<comment> \<open>\<^verbatim>\<open>_process_all\<close>; its first step (lines 377-383) refreshes the site helper manager,
      whose answers on this tick are \<open>env_helpers\<close>; the result carries the exception, if any,
      that leaves the function\<close>
  "process_all ev d now eng =
     (case speed_rules d of
        Inl e \<Rightarrow> (None, eng)
      | Inr rules \<Rightarrow>
          let enabled_rules = enabled_rules_of rules
          in if enabled_rules = [] then (None, eng)
             else (case qb_instances d of
                 Inl e \<Rightarrow> (Some e, eng)
               | Inr instances \<Rightarrow>
                   if instances = [] then (None, eng)
                   else (case process_instances ev d enabled_rules now instances (eng, 0) of
                       (Some e, ec) \<Rightarrow> (Some e, fst ec)
                     | (None, ec) \<Rightarrow>
                         (None, (fst ec)\<lparr>eng_stats :=
                                  (eng_stats (fst ec))\<lparr>torrents_controlled := snd ec\<rparr>\<rparr>))))"

definition run_loop_step :: "env \<Rightarrow> real \<Rightarrow> engine \<times> db \<Rightarrow> engine \<times> db" where
  \<comment> \<open>one pass of the \<^verbatim>\<open>while\<close> body of \<^verbatim>\<open>_run_loop\<close>; an exception of
      \<^verbatim>\<open>_process_all\<close> skips the periodic save\<close>
  "run_loop_step ev now ed =
     (case process_all ev (snd ed) now (fst ed) of
        (Some e, eng) \<Rightarrow> (eng, snd ed)
      | (None, eng) \<Rightarrow>
          if now - last_save_time eng > save_interval
          then save_states_to_db now (eng, snd ed)
          else (eng, snd ed))"

definition stop :: "real \<Rightarrow> engine \<times> db \<Rightarrow> engine \<times> db" where
  \<comment> \<open>\<^verbatim>\<open>stop\<close>: the state is saved\<close>
  "stop now ed = save_states_to_db now ed"

section \<open>AutoRemoveEngine\<close>

subsection \<open>Rule conditions\<close>

text \<open>
  A rule's \<^verbatim>\<open>condition\<close> is a JSON object; a key that is absent is \<open>None\<close>. The
  numbers of a condition are JSON numbers.
\<close>

record condition =
  free_space_lt :: "real option"
  upload_speed_lt :: "real option"
  completed :: "bool option"
  seeding_time_gt :: "real option"
  ratio_gt :: "real option"
  size_gt :: "real option"
  no_peers_time_gt :: "real option"

definition check_condition :: "real \<Rightarrow> torrent \<Rightarrow> condition \<Rightarrow> int \<Rightarrow> bool" where
  \<comment> \<open>\<^verbatim>\<open>_check_condition\<close>; the first argument is \<^verbatim>\<open>time.time()\<close>\<close>
  "check_condition now t c free_space =
     (if (case free_space_lt c of None \<Rightarrow> False
          | Some v \<Rightarrow> real_of_int free_space \<ge> v) then False
      else if (case upload_speed_lt c of None \<Rightarrow> False
          | Some v \<Rightarrow> real_of_int (getd 0 (t_upspeed t)) \<ge> v) then False
      else if getd False (completed c) \<and> getd 0 (t_progress t) < 1.0 then False
      else if (case seeding_time_gt c of None \<Rightarrow> False
          | Some v \<Rightarrow> real_of_int (getd 0 (t_seeding_time t)) \<le> v) then False
      else if (case ratio_gt c of None \<Rightarrow> False
          | Some v \<Rightarrow> getd 0 (t_ratio t) \<le> v) then False
      else if (case size_gt c of None \<Rightarrow> False
          | Some v \<Rightarrow> real_of_int (getd 0 (t_size t)) \<le> v) then False
      else if (case no_peers_time_gt c of None \<Rightarrow> False
          | Some v \<Rightarrow>
              let last_activity = getd 0 (t_last_activity t)
              in if last_activity > 0
                 then let no_peer_time = now - real_of_int last_activity in no_peer_time \<le> v
                 else False) then False
      else True)"

subsection \<open>Configuration\<close>

definition get_config :: "db \<Rightarrow> string \<Rightarrow> string" where
  \<comment> \<open>Modelled from the spec: the store's \<^verbatim>\<open>get_config(key, default='')\<close>\<close>
  "get_config d key = getd [] (map_of (config d) key)"

definition set_config_db :: "string \<Rightarrow> string \<Rightarrow> db \<Rightarrow> db" where
  \<comment> \<open>Modelled from the spec: the store's \<^verbatim>\<open>set_config(key, string)\<close>\<close>
  "set_config_db key v d = d\<lparr>config := AList.update key v (config d)\<rparr>"

text \<open>Python's \<^verbatim>\<open>int\<close> on a string and \<^verbatim>\<open>str\<close> on an integer, for ASCII text.\<close>

definition is_space :: "char \<Rightarrow> bool" where
  "is_space c = (let n = (of_char c :: nat) in n = 32 \<or> (9 \<le> n \<and> n \<le> 13))"

definition strip :: "string \<Rightarrow> string" where
  "strip s = rev (dropWhile is_space (rev (dropWhile is_space s)))"

definition digit_val :: "char \<Rightarrow> nat option" where
  "digit_val c = (let n = (of_char c :: nat) in if 48 \<le> n \<and> n \<le> 57 then Some (n - 48) else None)"

fun parse_digits :: "string \<Rightarrow> nat \<Rightarrow> nat option" where
  \<comment> \<open>digits, with single underscores allowed between two digits\<close>
  "parse_digits [] acc = Some acc"
| "parse_digits (c # cs) acc =
     (if c = CHR ''_''
      then (case cs of
              [] \<Rightarrow> None
            | c' # cs' \<Rightarrow> if c' = CHR ''_'' then None else parse_digits cs acc)
      else (case digit_val c of
              None \<Rightarrow> None
            | Some v \<Rightarrow> parse_digits cs (10 * acc + v)))"

definition parse_nat :: "string \<Rightarrow> nat option" where
  "parse_nat s =
     (case s of [] \<Rightarrow> None | c # cs \<Rightarrow> if c = CHR ''_'' then None else parse_digits s 0)"

definition int_of_str :: "string \<Rightarrow> int option" where
  \<comment> \<open>\<^verbatim>\<open>int(s)\<close>; \<open>None\<close> is \<^verbatim>\<open>ValueError\<close>\<close>
  "int_of_str s =
     (case strip s of
        [] \<Rightarrow> None
      | c # cs \<Rightarrow>
          if c = CHR ''-'' then map_option (\<lambda>n. - int n) (parse_nat cs)
          else if c = CHR ''+'' then map_option int (parse_nat cs)
          else map_option int (parse_nat (c # cs)))"

fun str_nat :: "nat \<Rightarrow> string" where
  "str_nat n = (if n < 10 then [char_of (48 + n)] else str_nat (n div 10) @ [char_of (48 + n mod 10)])"

definition str_int :: "int \<Rightarrow> string" where
  \<comment> \<open>\<^verbatim>\<open>str(n)\<close>\<close>
  "str_int n = (if n < 0 then CHR ''-'' # str_nat (nat (- n)) else str_nat (nat n))"

record auto_remove =
  ar_enabled :: bool
  check_interval :: int
  sleep_between :: int
  reannounce_before_delete :: bool
  delete_files :: bool

definition auto_remove_init :: auto_remove where
  \<comment> \<open>\<^verbatim>\<open>AutoRemoveEngine.__init__\<close>, the configuration fields\<close>
  "auto_remove_init =
     \<lparr>ar_enabled = False, check_interval = 60, sleep_between = 5,
      reannounce_before_delete = True, delete_files = True\<rparr>"

definition config_int :: "db \<Rightarrow> string \<Rightarrow> int \<Rightarrow> int" where
  \<comment> \<open>\<^verbatim>\<open>int(self.db.get_config(key) or dflt)\<close> inside \<^verbatim>\<open>try\<close>, with
      \<^verbatim>\<open>except:\<close> giving \<open>dflt\<close>\<close>
  "config_int d key dflt =
     (let v = get_config d key
      in if v = [] then dflt
         else (case int_of_str v of None \<Rightarrow> dflt | Some n \<Rightarrow> n))"

definition load_config :: "db \<Rightarrow> auto_remove \<Rightarrow> auto_remove" where
  "load_config d a =
     a\<lparr>ar_enabled := (get_config d ''auto_remove_enabled'' = ''true''),
       check_interval := config_int d ''auto_remove_interval'' 60,
       sleep_between := config_int d ''auto_remove_sleep'' 5,
       reannounce_before_delete := (get_config d ''auto_remove_reannounce'' \<noteq> ''false''),
       delete_files := (get_config d ''auto_remove_delete_files'' \<noteq> ''false'')\<rparr>"

definition bool_str :: "bool \<Rightarrow> string" where
  "bool_str b = (if b then ''true'' else ''false'')"

definition set_config :: "int option \<Rightarrow> int option \<Rightarrow> bool option \<Rightarrow> bool option \<Rightarrow> bool option
    \<Rightarrow> auto_remove \<times> db \<Rightarrow> auto_remove \<times> db" where
  "set_config interval sleep reannounce enabled del_files ad =
     (let ad1 = (case interval of None \<Rightarrow> ad
                 | Some i \<Rightarrow>
                     let v = max 30 (min 3600 i)
                     in ((fst ad)\<lparr>check_interval := v\<rparr>,
                         set_config_db ''auto_remove_interval'' (str_int v) (snd ad)));
          ad2 = (case sleep of None \<Rightarrow> ad1
                 | Some i \<Rightarrow>
                     let v = max 1 (min 60 i)
                     in ((fst ad1)\<lparr>sleep_between := v\<rparr>,
                         set_config_db ''auto_remove_sleep'' (str_int v) (snd ad1)));
          ad3 = (case reannounce of None \<Rightarrow> ad2
                 | Some b \<Rightarrow>
                     ((fst ad2)\<lparr>reannounce_before_delete := b\<rparr>,
                      set_config_db ''auto_remove_reannounce'' (bool_str b) (snd ad2)));
          ad4 = (case enabled of None \<Rightarrow> ad3
                 | Some b \<Rightarrow>
                     ((fst ad3)\<lparr>ar_enabled := b\<rparr>,
                      set_config_db ''auto_remove_enabled'' (bool_str b) (snd ad3)))
      in (case del_files of None \<Rightarrow> ad4
          | Some b \<Rightarrow>
              ((fst ad4)\<lparr>delete_files := b\<rparr>,
               set_config_db ''auto_remove_delete_files'' (bool_str b) (snd ad4))))"

section \<open>Well-formed tables\<close>

definition tracked :: "engine \<Rightarrow> string set" where
  \<comment> \<open>the hashes of the state table, \<^verbatim>\<open>self._states.keys()\<close>\<close>
  "tracked eng = fst ` set (states eng)"

definition states_wf :: "(string \<times> TorrentLimitState) list \<Rightarrow> bool" where
  \<comment> \<open>the state table holds each hash once, under the hash of its state\<close>
  "states_wf sts = (distinct (map fst sts) \<and> list_all (\<lambda>(k, s). hash s = k) sts)"

definition store_wf :: "db \<Rightarrow> bool" where
  \<comment> \<open>the persisted-state table holds each hash once, under the hash of its row\<close>
  "store_wf d =
     (distinct (map fst (limit_states d)) \<and> list_all (\<lambda>(k, row). row_hash row = Some k) (limit_states d))"

section \<open>Example inputs\<close>

definition ex_helper :: "real option \<Rightarrow> site_helper" where
  "ex_helper r =
     \<lparr>helper_enabled = True,
      search_tid_by_hash = (\<lambda>h. Inr (Some \<lparr>info_tid = Some 7, info_site_id = Some 1\<rparr>)),
      helper_get_reannounce_time = (\<lambda>t. Inr r)\<rparr>"

definition ex_helpers :: "real option \<Rightarrow> helper_manager" where
  "ex_helpers r =
     \<lparr>helper_available = True, get_helper_by_tracker = (\<lambda>tr. Inr (Some (ex_helper r)))\<rparr>"

definition no_helpers :: helper_manager where
  "no_helpers = \<lparr>helper_available = False, get_helper_by_tracker = (\<lambda>tr. Inr None)\<rparr>"

definition ex_client :: "real option \<Rightarrow> qb_client" where
  "ex_client r = \<lparr>torrents_properties = (\<lambda>h. Inr r)\<rparr>"

definition failing_client :: qb_client where
  "failing_client = \<lparr>torrents_properties = (\<lambda>h. Inl ExternalError)\<rparr>"

definition ex_qb :: "torrent list \<Rightarrow> qb_manager" where
  "ex_qb ts =
     \<lparr>get_client = (\<lambda>i. Some failing_client),
      get_torrents = (\<lambda>i. Inr ts),
      set_upload_limit = (\<lambda>i h l. Inr ())\<rparr>"

definition stats0 :: stats where
  "stats0 = \<lparr>site_success = 0, qb_api_success = 0, fallback_count = 0, torrents_controlled = 0\<rparr>"

definition ex_torrent :: torrent where
  "ex_torrent =
     \<lparr>t_hash = Some ''h1'', t_name = Some ''name'', t_state = Some ''uploading'',
      t_tracker = Some ''https://tracker.example/announce'', t_size = Some 2000000000,
      t_uploaded = Some 500, t_upspeed = Some 0, t_progress = Some 1, t_ratio = Some 2.01,
      t_seeding_time = Some 100000, t_last_activity = Some 0\<rparr>"

definition ex_rule :: speed_rule where
  "ex_rule =
     \<lparr>r_enabled = True, r_site_id = None, r_target_speed_kib = Some 1000,
      r_safety_margin = Some 1\<rparr>"

definition no_condition :: condition where
  "no_condition =
     \<lparr>free_space_lt = None, upload_speed_lt = None, completed = None, seeding_time_gt = None,
      ratio_gt = None, size_gt = None, no_peers_time_gt = None\<rparr>"

definition s_anchor :: TorrentLimitState where
  \<comment> \<open>a state whose next announce is expected at second 1900\<close>
  "s_anchor = (TorrentLimitState_default ''h1'')\<lparr>reannounce_time := 1900, cached_time_left := 905\<rparr>"

definition s_met :: TorrentLimitState where
  \<comment> \<open>a synced state, 100 s into a cycle that ends at second 1160, target 1000 B/s\<close>
  "s_met =
     (TorrentLimitState_default ''h1'')
       \<lparr>cycle_synced := True, cycle_start := 1000, target_speed := 1000,
        cached_time_left := 60, reannounce_time := 1160, cycle_uploaded_start := 0\<rparr>"

definition ex_db :: "(string \<times> string) list \<Rightarrow> db" where
  "ex_db cfg =
     \<lparr>config = cfg, speed_rules = Inr [ex_rule], pt_sites = Inr [],
      qb_instances = Inr [\<lparr>i_enabled = True, i_id = 1\<rparr>], limit_states = []\<rparr>"

definition s_late :: TorrentLimitState where
  \<comment> \<open>as \<open>s_met\<close>, with the cycle anchored at 1000 uploaded bytes\<close>
  "s_late = s_met\<lparr>cycle_uploaded_start := 1000\<rparr>"

definition ex_tick :: "real \<Rightarrow> real \<Rightarrow> tick" where
  \<comment> \<open>a tick at \<open>now\<close> on which the client answers \<open>r\<close> seconds and no site helper exists\<close>
  "ex_tick r now =
     \<lparr>tk_helpers = no_helpers, tk_client = ex_client (Some r), tk_torrent = ex_torrent,
      tk_rule = ex_rule, tk_now = now\<rparr>"

definition idle_tick :: "real \<Rightarrow> tick" where
  \<comment> \<open>a tick at \<open>now\<close> on which neither the site nor the client answers\<close>
  "idle_tick now =
     \<lparr>tk_helpers = no_helpers, tk_client = failing_client, tk_torrent = ex_torrent,
      tk_rule = ex_rule, tk_now = now\<rparr>"

definition near_torrent :: torrent where
  \<comment> \<open>a torrent 1000 bytes short of the target of a 160 s cycle at 1024000 B/s\<close>
  "near_torrent = ex_torrent\<lparr>t_uploaded := Some 163839000\<rparr>"


definition ex_engine :: engine where
  \<comment> \<open>an engine that tracks the one hash \<open>h0\<close>\<close>
  "ex_engine =
     \<lparr>states = [(''h0'', (TorrentLimitState_default ''h0'')\<lparr>last_limit := 4096\<rparr>)],
      eng_stats = stats0, last_save_time = 0, rpc_log = []\<rparr>"

definition ex_env :: env where
  \<comment> \<open>one client that enumerates \<open>ex_torrent\<close> only\<close>
  "ex_env = \<lparr>env_helpers = no_helpers, env_qb = ex_qb [ex_torrent], env_hostname = (\<lambda>u. None)\<rparr>"

definition done_torrent :: torrent where
  \<comment> \<open>a torrent that has uploaded more than its cycle's target\<close>
  "done_torrent = ex_torrent\<lparr>t_uploaded := Some 200000000\<rparr>"

section \<open>Properties of the PID controller\<close>

lemma safe_div_max1: "safe_div a (max t 1) d = a / max t 1"
proof -
  have "(1::real) \<le> max t 1" by simp
  moreover have "(1::real) / 10 ^ (10::nat) < 1" by simp
  ultimately have "\<not> (max t 1 = 0 \<or> \<bar>max t 1\<bar> < 1 / 10 ^ (10::nat))" by linarith
  then show ?thesis unfolding safe_div_def by simp
qed

lemma PID_PARAMS_table:
  "(kp (PID_PARAMS p), ki (PID_PARAMS p), kd (PID_PARAMS p)) =
     (case p of Warmup \<Rightarrow> (0.3, 0.05, 0.02) | Catch \<Rightarrow> (0.5, 0.10, 0.05)
      | Steady \<Rightarrow> (0.6, 0.15, 0.08) | Finish \<Rightarrow> (0.8, 0.20, 0.12))"
  by (cases p) (simp_all add: PID_PARAMS_def)

lemma PID_update_unfold:
  "PID_update target actual now c =
     (let params = PID_PARAMS (pid_phase c);
          e = (target - actual) / max target 1;
          dt = (if pid_last_time c > 0 then now - pid_last_time c else 1);
          I = max (- 0.5) (min 0.5 (pid_integral c + e * dt));
          d = (if dt > 0 then (e - pid_last_error c) / dt else 0);
          out = 1.0 + kp params * e + ki params * I + kd params * d
      in (max 0.3 (min 3.0 out),
          c\<lparr>pid_last_time := now, pid_integral := I, pid_last_error := e\<rparr>))"
  unfolding PID_update_def safe_div_max1 clamp_def by (rule refl)

lemma set_phase_fields:
  "pid_integral (set_phase p c) = (if p \<noteq> pid_phase c then pid_integral c * 0.5 else pid_integral c)"
  "pid_phase (set_phase p c) = p"
  "pid_last_error (set_phase p c) = pid_last_error c"
  "pid_last_time (set_phase p c) = pid_last_time c"
  by (simp_all add: set_phase_def)

text \<open>
  \<^bold>\<open>C7.\<close> \<^verbatim>\<open>PID.update(target, actual, now)\<close> on a controller \<open>c\<close>: the normalized
  error is \<open>e = (target - actual) / max(target, 1)\<close> (the guard of \<^verbatim>\<open>safe_div\<close> never
  fires); \<open>dt\<close> is \<open>now - last_time\<close> when \<open>last_time\<close> is positive and 1 otherwise, which
  covers the first call, since a new controller has \<open>last_time = 0\<close>; the integral becomes
  \<open>I + e * dt\<close> clamped to \<open>[-0.5, 0.5]\<close>; the derivative is \<open>(e - last_e) / dt\<close>, and 0
  when \<open>dt\<close> is not positive; the result is \<open>1 + kp * e + ki * I + kd * d\<close> clamped to
  \<open>[0.3, 3.0]\<close>, with the new integral and the gains of the controller's phase in table P.
  \<^verbatim>\<open>set_phase\<close> halves the integral when the phase differs and leaves it otherwise.
\<close>

theorem PID_update_spec:
  "PID_update target actual now c =
     (let params = PID_PARAMS (pid_phase c);
          e = (target - actual) / max target 1;
          dt = (if pid_last_time c > 0 then now - pid_last_time c else 1);
          I = max (- 0.5) (min 0.5 (pid_integral c + e * dt));
          d = (if dt > 0 then (e - pid_last_error c) / dt else 0);
          out = 1.0 + kp params * e + ki params * I + kd params * d
      in (max 0.3 (min 3.0 out),
          c\<lparr>pid_last_time := now, pid_integral := I, pid_last_error := e\<rparr>))
   \<and> (kp (PID_PARAMS p), ki (PID_PARAMS p), kd (PID_PARAMS p)) =
       (case p of Warmup \<Rightarrow> (0.3, 0.05, 0.02) | Catch \<Rightarrow> (0.5, 0.10, 0.05)
        | Steady \<Rightarrow> (0.6, 0.15, 0.08) | Finish \<Rightarrow> (0.8, 0.20, 0.12))
   \<and> pid_last_time PIDController_init = 0
   \<and> pid_integral (set_phase p c) =
         (if p \<noteq> pid_phase c then pid_integral c * 0.5 else pid_integral c)
   \<and> pid_phase (set_phase p c) = p"
proof -
  have i0: "pid_last_time PIDController_init = 0" by (simp add: PIDController_init_def)
  from PID_update_unfold [of target actual now c] PID_PARAMS_table [of p] i0
    set_phase_fields(1,2) [of p c]
  show ?thesis by blast
qed

theorem PID_update_spec_witness:
  "PID_update 1000 500 10 PIDController_init =
     (237 / 200, \<lparr>pid_integral = 1 / 2, pid_last_error = 1 / 2, pid_last_time = 10, pid_phase = Warmup\<rparr>)
   \<and> pid_integral (set_phase Finish \<lparr>pid_integral = 1 / 2, pid_last_error = 1 / 2, pid_last_time = 10, pid_phase = Warmup\<rparr>) = 1 / 4"
proof -
  have "PID_update 1000 500 10 PIDController_init =
     (237 / 200, \<lparr>pid_integral = 1 / 2, pid_last_error = 1 / 2, pid_last_time = 10, pid_phase = Warmup\<rparr>)"
    unfolding PID_update_spec [of 1000 500 10 PIDController_init Warmup, THEN conjunct1]
    by (simp add: PIDController_init_def PID_PARAMS_def Let_def)
  moreover have "pid_integral (set_phase Finish \<lparr>pid_integral = 1 / 2, pid_last_error = 1 / 2, pid_last_time = 10, pid_phase = Warmup\<rparr>) = 1 / 4"
    unfolding PID_update_spec [of 0 0 0 "\<lparr>pid_integral = 1 / 2, pid_last_error = 1 / 2, pid_last_time = 10, pid_phase = Warmup\<rparr>" Finish,
        THEN conjunct2, THEN conjunct2, THEN conjunct2, THEN conjunct1]
    by simp
  ultimately show ?thesis by (rule conjI)
qed

section \<open>Properties of the rate computation\<close>

lemma clamp_round_pos:
  assumes "0 < l"
  shows "MIN_LIMIT \<le> clamp_round ph l \<and> clamp_round ph l \<le> MAX_LIMIT
     \<and> clamp_round ph l mod (if ph = Finish then 1024 else 4096) = 0"
proof -
  define l1 where "l1 = max MIN_LIMIT (min MAX_LIMIT l)"
  have b: "4096 \<le> l1" "l1 \<le> 524288000"
    by (simp_all add: l1_def MIN_LIMIT_def MAX_LIMIT_def)
  have r: "clamp_round ph l = ((l1 + (if ph = Finish then 1024 else 4096) div 2)
              div (if ph = Finish then 1024 else 4096)) * (if ph = Finish then 1024 else 4096)"
    using assms by (simp add: clamp_round_def l1_def Let_def)
  show ?thesis
  proof (cases "ph = Finish")
    case True
    with r have e: "clamp_round ph l = ((l1 + 512) div 1024) * 1024" by simp
    have "(4608::int) div 1024 \<le> (l1 + 512) div 1024" "(l1 + 512) div 1024 \<le> (524288512::int) div 1024"
      using b by (intro zdiv_mono1; simp)+
    then have "4 \<le> (l1 + 512) div 1024" "(l1 + 512) div 1024 \<le> 512000" by simp_all
    with e True show ?thesis by (simp add: MIN_LIMIT_def MAX_LIMIT_def)
  next
    case False
    with r have e: "clamp_round ph l = ((l1 + 2048) div 4096) * 4096" by simp
    have "(6144::int) div 4096 \<le> (l1 + 2048) div 4096" "(l1 + 2048) div 4096 \<le> (524290048::int) div 4096"
      using b by (intro zdiv_mono1; simp)+
    then have "1 \<le> (l1 + 2048) div 4096" "(l1 + 2048) div 4096 \<le> 128000" by simp_all
    with e False show ?thesis by (simp add: MIN_LIMIT_def MAX_LIMIT_def)
  qed
qed

lemma clamp_round_nonpos: "l \<le> 0 \<Longrightarrow> clamp_round ph l = l"
  by (simp add: clamp_round_def)

lemma py_int_nonneg: "0 \<le> x \<Longrightarrow> 0 \<le> py_int x"
  by (simp add: py_int_def)

lemma clamp_bounds: "lo \<le> hi \<Longrightarrow> lo \<le> clamp v lo hi \<and> clamp v lo hi \<le> hi"
  by (simp add: clamp_def)

lemma PID_update_output: "0.3 \<le> fst (PID_update t a n c) \<and> fst (PID_update t a n c) \<le> 3"
  using clamp_bounds [of "0.3" "3.0"] by (simp add: PID_update_def Let_def)

lemma headroom_pos: "0 < headroom (PID_PARAMS p)"
  by (cases p) (simp_all add: PID_PARAMS_def)

lemma phase_limit_lower:
  assumes "0 \<le> rs" "0 \<le> po"
  shows "fst (phase_limit ph s tleft tt cu pr rs po) = - 1 \<or> 0 \<le> fst (phase_limit ph s tleft tt cu pr rs po)"
proof (cases ph)
  case Warmup
  have "0 \<le> rs * 1.01 * po" "0 \<le> rs * 1.05" using assms by simp_all
  then show ?thesis using Warmup
    by (simp add: phase_limit_def Let_def MIN_LIMIT_def py_int_nonneg)
next
  case Catch
  have "0 \<le> rs * headroom (PID_PARAMS Catch) * po"
    using assms headroom_pos [of Catch] by simp
  then show ?thesis using Catch
    by (simp add: phase_limit_def Let_def py_int_nonneg)
next
  case Steady
  have "0 \<le> rs * headroom (PID_PARAMS Steady) * po"
    using assms headroom_pos [of Steady] by simp
  then show ?thesis using Steady
    by (simp add: phase_limit_def Let_def py_int_nonneg)
next
  case Finish
  define pr' where "pr' = safe_div (cu + predict_upload (kalman s) tleft) tt 0"
  define corr where "corr = (if pr' > 1.002 then max 0.8 (1 - (pr' - 1) * 3)
                   else if pr' < 0.998 then min 1.2 (1 + (1 - pr') * 3) else 1.0)"
  have "0 \<le> corr" unfolding corr_def by auto
  then have "0 \<le> rs * po * corr" using assms by simp
  then have "0 \<le> py_int (rs * po * corr)" by (rule py_int_nonneg)
  then show ?thesis using Finish
    unfolding phase_limit_def Let_def corr_def pr'_def by simp
qed

lemma calculate_limit_cases:
  "fst (fst (calculate_limit s u now tleft)) = - 1 \<or> fst (fst (calculate_limit s u now tleft)) = 0
   \<or> (MIN_LIMIT \<le> fst (fst (calculate_limit s u now tleft))
      \<and> fst (fst (calculate_limit s u now tleft)) \<le> MAX_LIMIT
      \<and> fst (fst (calculate_limit s u now tleft)) mod (if state_get_phase s now = Finish then 1024 else 4096) = 0)"
proof (cases "tleft \<le> 0")
  case True
  then show ?thesis by (simp add: calculate_limit_def Let_def)
next
  case False
  define ph where "ph = state_get_phase s now"
  define s1 where "s1 = s\<lparr>pid := set_phase ph (pid s)\<rparr>"
  define tt where "tt = real_of_int (target_speed s1) * (now - cycle_start s1 + tleft)"
  define cu where "cu = real_of_int (get_cycle_uploaded s1 u)"
  define rs where "rs = max 0 (tt - cu) / tleft"
  define upd where "upd = PID_update tt cu now (pid s1)"
  define l where "l = fst (phase_limit ph (s1\<lparr>pid := snd upd\<rparr>) tleft tt cu (safe_div cu tt 0) rs (fst upd))"
  have cl: "fst (fst (calculate_limit s u now tleft)) = clamp_round ph l"
    using False unfolding calculate_limit_def Let_def l_def upd_def rs_def cu_def tt_def s1_def ph_def
    by simp
  have "0 \<le> rs" using False by (simp add: rs_def)
  moreover have "0 \<le> fst upd" using PID_update_output [of tt cu now "pid s1"] by (simp add: upd_def)
  ultimately have "l = - 1 \<or> 0 \<le> l" unfolding l_def by (rule phase_limit_lower)
  then consider "l = - 1" | "l = 0" | "0 < l" by linarith
  then show ?thesis
  proof cases
    case 1 then show ?thesis unfolding cl by (simp add: clamp_round_nonpos)
  next
    case 2 then show ?thesis unfolding cl by (simp add: clamp_round_nonpos)
  next
    case 3 from clamp_round_pos [OF 3, of ph] show ?thesis unfolding cl ph_def by simp
  qed
qed

text \<open>
  \<^bold>\<open>C6.\<close> The claim: every limit the rate computation returns, other than -1, lies in
  \<open>[MIN_LIMIT, MAX_LIMIT]\<close> and is a multiple of the step. \<open>clamp_round_pos\<close> shows this for
  a positive limit and \<open>calculate_limit_cases\<close> shows that the only other results are -1
  and 0. The result 0 occurs: in the state \<open>s_met\<close> (steady phase, 60 s before the announce)
  with the cycle's target already uploaded, the required speed is 0, the limit before the
  clamp is 0, the guard \<^verbatim>\<open>limit > 0\<close> skips the clamp, and 0 is returned. A whole
  tick on that state, for a torrent that has uploaded 200000000 bytes, computes the limit 0
  and issues \<^verbatim>\<open>set_upload_limit\<close> with 0.
\<close>

theorem calculate_limit_zero:
  "state_get_phase s_met 1100 = Steady
   \<and> fst (calculate_limit s_met 500000 1100 60) = (0, S_rate 0 Unknown)
   \<and> fst (tick_limit no_helpers (ex_client (Some 60)) 1 ''h1'' done_torrent ex_rule 1100 (s_met, stats0))
       = (0, S_rate 0 QbApi)
   \<and> snd (snd (process_state no_helpers (ex_qb []) 1 (ex_client (Some 60)) ''h1'' done_torrent ex_rule 1100
         (s_met, stats0, []))) = [(1, ''h1'', 0)]"
  by code_simp

section \<open>Properties of the reannounce oracle\<close>

lemma site_lookup_tid_shape:
  assumes "site_lookup_tid helper h s = Inr s1"
  shows "\<exists>t i. s1 = s\<lparr>tid := t, site_id := i\<rparr>"
proof -
  define P where "P = (\<lambda>x. \<exists>t i. x = s\<lparr>tid := t, site_id := i\<rparr>)"
  have Ps: "P s" unfolding P_def
    by (rule exI [of _ "tid s"], rule exI [of _ "site_id s"]) simp
  have Pu: "\<And>t i. P (s\<lparr>tid := t, site_id := i\<rparr>)" unfolding P_def by blast
  have "P s1" using assms Ps Pu
    by (auto simp: site_lookup_tid_def split: if_splits sum.splits option.splits)
  then show ?thesis unfolding P_def .
qed

lemma site_probe_shape: "\<exists>t i. snd (site_probe mgr h tr s) = s\<lparr>tid := t, site_id := i\<rparr>"
proof -
  define P where "P = (\<lambda>x. \<exists>t i. x = s\<lparr>tid := t, site_id := i\<rparr>)"
  have Ps: "P s" unfolding P_def
    by (rule exI [of _ "tid s"], rule exI [of _ "site_id s"]) simp
  have Pl: "\<And>helper s1. site_lookup_tid helper h s = Inr s1 \<Longrightarrow> P s1"
    unfolding P_def by (rule site_lookup_tid_shape)
  have "P (snd (site_probe mgr h tr s))" using Ps Pl
    by (auto simp: site_probe_def split: if_splits sum.splits option.splits)
  then show ?thesis unfolding P_def .
qed

lemma site_probe_keeps:
  "reannounce_time (snd (site_probe mgr h tr s)) = reannounce_time s"
  "cached_time_left (snd (site_probe mgr h tr s)) = cached_time_left s"
  "cycle_synced (snd (site_probe mgr h tr s)) = cycle_synced s"
  "cycle_index (snd (site_probe mgr h tr s)) = cycle_index s"
  "cycle_start (snd (site_probe mgr h tr s)) = cycle_start s"
  "cycle_uploaded_start (snd (site_probe mgr h tr s)) = cycle_uploaded_start s"
  "last_limit (snd (site_probe mgr h tr s)) = last_limit s"
  "last_limit_reason (snd (site_probe mgr h tr s)) = last_limit_reason s"
  "hash (snd (site_probe mgr h tr s)) = hash s"
  using site_probe_shape [of mgr h tr s] by auto


lemma qb_probe_Some:
  "(qb_probe client h = Some v) = (torrents_properties client h = Inr (Some v) \<and> 0 < v \<and> v < 86400)"
  by (auto simp: qb_probe_def getd_def Let_def split: sum.splits option.splits)

lemma get_reannounce_time_site:
  assumes "fst (site_probe mgr h tr s) = Some v"
  shows "get_reannounce_time mgr client h tr now (s, st) =
           ((v, Site), snd (site_probe mgr h tr s), st\<lparr>site_success := site_success st + 1\<rparr>)"
  using assms by (cases "site_probe mgr h tr s") (simp add: get_reannounce_time_def)

lemma get_reannounce_time_qb:
  assumes "fst (site_probe mgr h tr s) = None" "qb_probe client h = Some v"
  shows "get_reannounce_time mgr client h tr now (s, st) =
           ((v, QbApi), (snd (site_probe mgr h tr s))\<lparr>reannounce_time := now + v\<rparr>,
            st\<lparr>qb_api_success := qb_api_success st + 1\<rparr>)"
  using assms by (cases "site_probe mgr h tr s") (simp add: get_reannounce_time_def)

lemma get_reannounce_time_fallback:
  assumes "fst (site_probe mgr h tr s) = None" "qb_probe client h = None"
  shows "get_reannounce_time mgr client h tr now (s, st) =
           ((if reannounce_time s > 0 then (max 0 (reannounce_time s - now), Estimated)
             else (cached_time_left s, Cached)),
            snd (site_probe mgr h tr s), st\<lparr>fallback_count := fallback_count st + 1\<rparr>)"
proof -
  obtain s1 where sp: "site_probe mgr h tr s = (None, s1)"
    using assms(1) by (cases "site_probe mgr h tr s") simp
  have "reannounce_time s1 = reannounce_time s"
    using site_probe_keeps(1) [of mgr h tr s] sp by simp
  then show ?thesis using sp assms(2) by (simp add: get_reannounce_time_def)
qed

lemma site_lookup_tid_Inl:
  "site_lookup_tid helper h s = Inl e \<Longrightarrow> tid s = None \<and> search_tid_by_hash helper h = Inl e"
  by (auto simp: site_lookup_tid_def split: if_splits sum.splits option.splits)

lemma site_lookup_tid_tid:
  assumes "site_lookup_tid helper h s = Inr s1"
  shows "(tid s1 = Some t \<and> t \<noteq> 0) =
     (t \<noteq> 0 \<and> (tid s = Some t
        \<or> tid s = None \<and> (\<exists>info. search_tid_by_hash helper h = Inr (Some info) \<and> info_tid info = Some t)))"
proof (cases "tid s")
  case (Some t0)
  with assms have "s1 = s" by (simp add: site_lookup_tid_def)
  with Some show ?thesis by auto
next
  case None
  show ?thesis
  proof (cases "search_tid_by_hash helper h")
    case (Inl e)
    with None assms show ?thesis by (simp add: site_lookup_tid_def)
  next
    case (Inr io)
    show ?thesis
    proof (cases io)
      case n: None
      with None Inr assms have "s1 = s" by (simp add: site_lookup_tid_def)
      with None Inr n show ?thesis by simp
    next
      case (Some info)
      show ?thesis
      proof (cases "truthy_id (info_tid info)")
        case True
        with None Inr Some assms have "tid s1 = info_tid info" by (auto simp: site_lookup_tid_def)
        with None Inr Some show ?thesis by auto
      next
        case False
        with None Inr Some assms have "s1 = s" by (simp add: site_lookup_tid_def)
        with None Inr Some False show ?thesis by (auto simp: truthy_id_def)
      qed
    qed
  qed
qed

lemma site_probe_iff:
  "(fst (site_probe mgr h tr s) = Some v) =
     (\<exists>helper t.
        helper_available mgr \<and> get_helper_by_tracker mgr tr = Inr (Some helper)
        \<and> helper_enabled helper
        \<and> t \<noteq> 0
        \<and> (tid s = Some t
            \<or> tid s = None
              \<and> (\<exists>info. search_tid_by_hash helper h = Inr (Some info) \<and> info_tid info = Some t))
        \<and> helper_get_reannounce_time helper t = Inr (Some v) \<and> 0 < v)"
proof (cases "helper_available mgr")
  case False
  then show ?thesis by (simp add: site_probe_def)
next
  case av: True
  show ?thesis
  proof (cases "get_helper_by_tracker mgr tr")
    case (Inl e)
    with av show ?thesis by (simp add: site_probe_def)
  next
    case (Inr ho)
    show ?thesis
    proof (cases ho)
      case None
      with av Inr show ?thesis by (simp add: site_probe_def)
    next
      case (Some helper)
      show ?thesis
      proof (cases "helper_enabled helper")
        case False
        with av Inr Some show ?thesis by (simp add: site_probe_def)
      next
        case en: True
        show ?thesis
        proof (cases "site_lookup_tid helper h s")
          case l: (Inl e)
          from site_lookup_tid_Inl [OF l] av Inr Some en l show ?thesis
            by (simp add: site_probe_def)
        next
          case l: (Inr s1)
          note K = site_lookup_tid_tid [OF l]
          have p: "fst (site_probe mgr h tr s) =
              (case tid s1 of None \<Rightarrow> None
               | Some t \<Rightarrow> if t = 0 then None
                   else (case helper_get_reannounce_time helper t of
                           Inl e \<Rightarrow> None | Inr None \<Rightarrow> None
                         | Inr (Some r) \<Rightarrow> if r > 0 then Some r else None))"
            using av Inr Some en l
            by (simp add: site_probe_def split: option.splits sum.splits)
          have "(fst (site_probe mgr h tr s) = Some v) =
              (\<exists>t. (tid s1 = Some t \<and> t \<noteq> 0)
                   \<and> helper_get_reannounce_time helper t = Inr (Some v) \<and> 0 < v)"
            unfolding p by (auto split: option.splits sum.splits if_splits)
          also have "\<dots> = (\<exists>t. t \<noteq> 0
               \<and> (tid s = Some t
                   \<or> tid s = None
                     \<and> (\<exists>info. search_tid_by_hash helper h = Inr (Some info) \<and> info_tid info = Some t))
               \<and> helper_get_reannounce_time helper t = Inr (Some v) \<and> 0 < v)"
            unfolding K by blast
          finally show ?thesis using av Inr Some en by simp
        qed
      qed
    qed
  qed
qed

text \<open>
  \<^bold>\<open>C3.\<close> The oracle's precedence, in the answers of the outside. The site path yields
  \<open>v\<close> when a helper manager is present, it returns a helper for the tracker, the helper is
  enabled, the torrent id \<open>t\<close> is not 0 and is either cached in the state or, with none
  cached, the id the helper's search returns for the hash, and the scraper answers \<open>v > 0\<close>
  for \<open>t\<close>. Then the result is \<open>(v, site)\<close> and \<open>reannounce_time\<close> is unchanged. Otherwise,
  if the client answers \<open>v\<close> with \<open>0 < v < 86400\<close>, the result is \<open>(v, qb_api)\<close> and
  \<open>reannounce_time\<close> becomes \<open>now + v\<close>. Otherwise, if \<open>reannounce_time > 0\<close>, the result is
  \<open>(max 0 (reannounce_time - now), estimated)\<close>; otherwise it is \<open>(cached_time_left, cached)\<close>.
\<close>

theorem get_reannounce_time_precedence:
  "(helper_available mgr \<and> get_helper_by_tracker mgr tr = Inr (Some helper)
      \<and> helper_enabled helper \<and> t \<noteq> 0
      \<and> (tid s = Some t
          \<or> tid s = None
            \<and> (\<exists>info. search_tid_by_hash helper h = Inr (Some info) \<and> info_tid info = Some t))
      \<and> helper_get_reannounce_time helper t = Inr (Some v) \<and> 0 < v \<longrightarrow>
      fst (get_reannounce_time mgr client h tr now (s, st)) = (v, Site)
      \<and> reannounce_time (fst (snd (get_reannounce_time mgr client h tr now (s, st)))) = reannounce_time s)
   \<and> (\<not> (\<exists>hp t w. helper_available mgr \<and> get_helper_by_tracker mgr tr = Inr (Some hp)
            \<and> helper_enabled hp \<and> t \<noteq> 0
            \<and> (tid s = Some t
                \<or> tid s = None
                  \<and> (\<exists>info. search_tid_by_hash hp h = Inr (Some info) \<and> info_tid info = Some t))
            \<and> helper_get_reannounce_time hp t = Inr (Some w) \<and> 0 < w)
       \<and> torrents_properties client h = Inr (Some v) \<and> 0 < v \<and> v < 86400 \<longrightarrow>
      fst (get_reannounce_time mgr client h tr now (s, st)) = (v, QbApi)
      \<and> reannounce_time (fst (snd (get_reannounce_time mgr client h tr now (s, st)))) = now + v)
   \<and> (\<not> (\<exists>hp t w. helper_available mgr \<and> get_helper_by_tracker mgr tr = Inr (Some hp)
            \<and> helper_enabled hp \<and> t \<noteq> 0
            \<and> (tid s = Some t
                \<or> tid s = None
                  \<and> (\<exists>info. search_tid_by_hash hp h = Inr (Some info) \<and> info_tid info = Some t))
            \<and> helper_get_reannounce_time hp t = Inr (Some w) \<and> 0 < w)
       \<and> \<not> (\<exists>w. torrents_properties client h = Inr (Some w) \<and> 0 < w \<and> w < 86400)
       \<and> 0 < reannounce_time s \<longrightarrow>
      fst (get_reannounce_time mgr client h tr now (s, st)) = (max 0 (reannounce_time s - now), Estimated))
   \<and> (\<not> (\<exists>hp t w. helper_available mgr \<and> get_helper_by_tracker mgr tr = Inr (Some hp)
            \<and> helper_enabled hp \<and> t \<noteq> 0
            \<and> (tid s = Some t
                \<or> tid s = None
                  \<and> (\<exists>info. search_tid_by_hash hp h = Inr (Some info) \<and> info_tid info = Some t))
            \<and> helper_get_reannounce_time hp t = Inr (Some w) \<and> 0 < w)
       \<and> \<not> (\<exists>w. torrents_properties client h = Inr (Some w) \<and> 0 < w \<and> w < 86400)
       \<and> \<not> 0 < reannounce_time s \<longrightarrow>
      fst (get_reannounce_time mgr client h tr now (s, st)) = (cached_time_left s, Cached))"
proof -
  have none: "fst (site_probe mgr h tr s) = None"
    if "\<not> (\<exists>hp t w. helper_available mgr \<and> get_helper_by_tracker mgr tr = Inr (Some hp)
            \<and> helper_enabled hp \<and> t \<noteq> 0
            \<and> (tid s = Some t
                \<or> tid s = None
                  \<and> (\<exists>info. search_tid_by_hash hp h = Inr (Some info) \<and> info_tid info = Some t))
            \<and> helper_get_reannounce_time hp t = Inr (Some w) \<and> 0 < w)"
  proof (cases "fst (site_probe mgr h tr s)")
    case None
    then show ?thesis .
  next
    case (Some w)
    then have "\<exists>hp t. helper_available mgr \<and> get_helper_by_tracker mgr tr = Inr (Some hp)
            \<and> helper_enabled hp \<and> t \<noteq> 0
            \<and> (tid s = Some t
                \<or> tid s = None
                  \<and> (\<exists>info. search_tid_by_hash hp h = Inr (Some info) \<and> info_tid info = Some t))
            \<and> helper_get_reannounce_time hp t = Inr (Some w) \<and> 0 < w"
      by (simp only: site_probe_iff)
    with that show ?thesis by blast
  qed
  have noqb: "qb_probe client h = None" if "\<not> (\<exists>w. torrents_properties client h = Inr (Some w) \<and> 0 < w \<and> w < 86400)"
    using that qb_probe_Some [of client h] by (cases "qb_probe client h") auto
  show ?thesis
  proof (intro conjI impI)
    assume a: "helper_available mgr \<and> get_helper_by_tracker mgr tr = Inr (Some helper)
      \<and> helper_enabled helper \<and> t \<noteq> 0
      \<and> (tid s = Some t
          \<or> tid s = None
            \<and> (\<exists>info. search_tid_by_hash helper h = Inr (Some info) \<and> info_tid info = Some t))
      \<and> helper_get_reannounce_time helper t = Inr (Some v) \<and> 0 < v"
    then have sp: "fst (site_probe mgr h tr s) = Some v"
      unfolding site_probe_iff by blast
    show "fst (get_reannounce_time mgr client h tr now (s, st)) = (v, Site)"
      by (simp add: get_reannounce_time_site [OF sp])
    show "reannounce_time (fst (snd (get_reannounce_time mgr client h tr now (s, st)))) = reannounce_time s"
      by (simp add: get_reannounce_time_site [OF sp] site_probe_keeps)
  next
    assume a: "\<not> (\<exists>hp t w. helper_available mgr \<and> get_helper_by_tracker mgr tr = Inr (Some hp)
            \<and> helper_enabled hp \<and> t \<noteq> 0
            \<and> (tid s = Some t
                \<or> tid s = None
                  \<and> (\<exists>info. search_tid_by_hash hp h = Inr (Some info) \<and> info_tid info = Some t))
            \<and> helper_get_reannounce_time hp t = Inr (Some w) \<and> 0 < w)
       \<and> torrents_properties client h = Inr (Some v) \<and> 0 < v \<and> v < 86400"
    then have sp: "fst (site_probe mgr h tr s) = None" using none by blast
    from a have q: "qb_probe client h = Some v" by (simp add: qb_probe_Some)
    show "fst (get_reannounce_time mgr client h tr now (s, st)) = (v, QbApi)"
      by (simp add: get_reannounce_time_qb [OF sp q])
    show "reannounce_time (fst (snd (get_reannounce_time mgr client h tr now (s, st)))) = now + v"
      by (simp add: get_reannounce_time_qb [OF sp q])
  next
    assume a: "\<not> (\<exists>hp t w. helper_available mgr \<and> get_helper_by_tracker mgr tr = Inr (Some hp)
            \<and> helper_enabled hp \<and> t \<noteq> 0
            \<and> (tid s = Some t
                \<or> tid s = None
                  \<and> (\<exists>info. search_tid_by_hash hp h = Inr (Some info) \<and> info_tid info = Some t))
            \<and> helper_get_reannounce_time hp t = Inr (Some w) \<and> 0 < w)
       \<and> \<not> (\<exists>w. torrents_properties client h = Inr (Some w) \<and> 0 < w \<and> w < 86400)
       \<and> 0 < reannounce_time s"
    then have sp: "fst (site_probe mgr h tr s) = None" using none by blast
    from a have q: "qb_probe client h = None" using noqb by blast
    from a show "fst (get_reannounce_time mgr client h tr now (s, st)) = (max 0 (reannounce_time s - now), Estimated)"
      by (simp add: get_reannounce_time_fallback [OF sp q])
  next
    assume a: "\<not> (\<exists>hp t w. helper_available mgr \<and> get_helper_by_tracker mgr tr = Inr (Some hp)
            \<and> helper_enabled hp \<and> t \<noteq> 0
            \<and> (tid s = Some t
                \<or> tid s = None
                  \<and> (\<exists>info. search_tid_by_hash hp h = Inr (Some info) \<and> info_tid info = Some t))
            \<and> helper_get_reannounce_time hp t = Inr (Some w) \<and> 0 < w)
       \<and> \<not> (\<exists>w. torrents_properties client h = Inr (Some w) \<and> 0 < w \<and> w < 86400)
       \<and> \<not> 0 < reannounce_time s"
    then have sp: "fst (site_probe mgr h tr s) = None" using none by blast
    from a have q: "qb_probe client h = None" using noqb by blast
    from a show "fst (get_reannounce_time mgr client h tr now (s, st)) = (cached_time_left s, Cached)"
      by (simp add: get_reannounce_time_fallback [OF sp q])
  qed
qed

theorem get_reannounce_time_precedence_witness:
  "fst (get_reannounce_time (ex_helpers (Some 500)) (ex_client (Some 1200)) ''h1'' ''t'' 1000 (s_anchor, stats0)) = (500, Site)
   \<and> reannounce_time (fst (snd (get_reannounce_time (ex_helpers (Some 500)) (ex_client (Some 1200)) ''h1'' ''t'' 1000 (s_anchor, stats0)))) = 1900
   \<and> fst (get_reannounce_time (ex_helpers (Some 0)) (ex_client (Some 1200)) ''h1'' ''t'' 1000 (s_anchor, stats0)) = (1200, QbApi)
   \<and> reannounce_time (fst (snd (get_reannounce_time (ex_helpers (Some 0)) (ex_client (Some 1200)) ''h1'' ''t'' 1000 (s_anchor, stats0)))) = 2200
   \<and> fst (get_reannounce_time no_helpers (ex_client (Some 86400)) ''h1'' ''t'' 1000 (s_anchor, stats0)) = (900, Estimated)
   \<and> fst (get_reannounce_time no_helpers (ex_client None) ''h1'' ''t'' 1000 (TorrentLimitState_default ''h1'', stats0)) = (1800, Cached)"
proof -
  have h1: "helper_available (ex_helpers (Some 500))
      \<and> get_helper_by_tracker (ex_helpers (Some 500)) ''t'' = Inr (Some (ex_helper (Some 500)))
      \<and> helper_enabled (ex_helper (Some 500)) \<and> (7::int) \<noteq> 0
      \<and> (tid s_anchor = Some 7
          \<or> tid s_anchor = None
            \<and> (\<exists>info. search_tid_by_hash (ex_helper (Some 500)) ''h1'' = Inr (Some info) \<and> info_tid info = Some 7))
      \<and> helper_get_reannounce_time (ex_helper (Some 500)) 7 = Inr (Some 500) \<and> (0::real) < 500"
    by (simp add: ex_helpers_def ex_helper_def s_anchor_def TorrentLimitState_default_def)
  have h2: "\<not> (\<exists>hp t w. helper_available (ex_helpers (Some 0)) \<and> get_helper_by_tracker (ex_helpers (Some 0)) ''t'' = Inr (Some hp)
            \<and> helper_enabled hp \<and> t \<noteq> 0
            \<and> (tid s_anchor = Some t
                \<or> tid s_anchor = None
                  \<and> (\<exists>info. search_tid_by_hash hp ''h1'' = Inr (Some info) \<and> info_tid info = Some t))
            \<and> helper_get_reannounce_time hp t = Inr (Some w) \<and> 0 < w)
       \<and> torrents_properties (ex_client (Some 1200)) ''h1'' = Inr (Some 1200) \<and> (0::real) < 1200 \<and> (1200::real) < 86400"
    by (auto simp: ex_helpers_def ex_helper_def ex_client_def)
  have h3: "\<not> (\<exists>hp t w. helper_available no_helpers \<and> get_helper_by_tracker no_helpers ''t'' = Inr (Some hp)
            \<and> helper_enabled hp \<and> t \<noteq> 0
            \<and> (tid s_anchor = Some t
                \<or> tid s_anchor = None
                  \<and> (\<exists>info. search_tid_by_hash hp ''h1'' = Inr (Some info) \<and> info_tid info = Some t))
            \<and> helper_get_reannounce_time hp t = Inr (Some w) \<and> 0 < w)
       \<and> \<not> (\<exists>w. torrents_properties (ex_client (Some 86400)) ''h1'' = Inr (Some w) \<and> 0 < w \<and> w < 86400)
       \<and> 0 < reannounce_time s_anchor"
    by (simp add: no_helpers_def ex_client_def s_anchor_def)
  have h4: "\<not> (\<exists>hp t w. helper_available no_helpers \<and> get_helper_by_tracker no_helpers ''t'' = Inr (Some hp)
            \<and> helper_enabled hp \<and> t \<noteq> 0
            \<and> (tid (TorrentLimitState_default ''h1'') = Some t
                \<or> tid (TorrentLimitState_default ''h1'') = None
                  \<and> (\<exists>info. search_tid_by_hash hp ''h1'' = Inr (Some info) \<and> info_tid info = Some t))
            \<and> helper_get_reannounce_time hp t = Inr (Some w) \<and> 0 < w)
       \<and> \<not> (\<exists>w. torrents_properties (ex_client None) ''h1'' = Inr (Some w) \<and> 0 < w \<and> w < 86400)
       \<and> \<not> 0 < reannounce_time (TorrentLimitState_default ''h1'')"
    by (simp add: no_helpers_def ex_client_def TorrentLimitState_default_def)
  have r: "reannounce_time s_anchor = 1900" "max 0 (reannounce_time s_anchor - 1000) = 900"
    "cached_time_left (TorrentLimitState_default ''h1'') = 1800"
    by (simp_all add: s_anchor_def TorrentLimitState_default_def)
  note T = get_reannounce_time_precedence
  from T [THEN conjunct1, rule_format, OF h1]
    T [THEN conjunct2, THEN conjunct1, rule_format, OF h2]
    T [THEN conjunct2, THEN conjunct2, THEN conjunct1, rule_format, OF h3]
    T [THEN conjunct2, THEN conjunct2, THEN conjunct2, rule_format, OF h4]
  show ?thesis unfolding r by simp
qed

section \<open>Properties of one tick on a torrent\<close>

lemma get_reannounce_time_shape:
  "\<exists>t i r. fst (snd (get_reannounce_time mgr client h tr now (s, st))) =
      s\<lparr>tid := t, site_id := i, reannounce_time := r\<rparr>"
proof -
  obtain t i where sp: "snd (site_probe mgr h tr s) = s\<lparr>tid := t, site_id := i\<rparr>"
    using site_probe_shape by blast
  have same: "s\<lparr>tid := t, site_id := i\<rparr> = s\<lparr>tid := t, site_id := i, reannounce_time := reannounce_time s\<rparr>"
    by simp
  show ?thesis
  proof (cases "fst (site_probe mgr h tr s)")
    case (Some v)
    then have "fst (snd (get_reannounce_time mgr client h tr now (s, st))) = s\<lparr>tid := t, site_id := i\<rparr>"
      by (simp add: get_reannounce_time_site sp)
    with same show ?thesis by metis
  next
    case None
    show ?thesis
    proof (cases "qb_probe client h")
      case (Some v)
      with None have "fst (snd (get_reannounce_time mgr client h tr now (s, st))) =
          s\<lparr>tid := t, site_id := i, reannounce_time := now + v\<rparr>"
        by (simp add: get_reannounce_time_qb sp)
      then show ?thesis by blast
    next
      case qn: None
      with None have "fst (snd (get_reannounce_time mgr client h tr now (s, st))) = s\<lparr>tid := t, site_id := i\<rparr>"
        by (simp add: get_reannounce_time_fallback sp)
      with same show ?thesis by metis
    qed
  qed
qed

lemma sync_cycle_fields:
  "cycle_index (sync_cycle now u tleft s) =
     (if cycle_synced s \<and> tleft > cached_time_left s + 30 then cycle_index s + 1 else cycle_index s)"
  "cycle_start (sync_cycle now u tleft s) =
     (if cycle_synced s \<and> tleft > cached_time_left s + 30 then now else cycle_start s)"
  "cycle_uploaded_start (sync_cycle now u tleft s) =
     (if cycle_synced s \<and> tleft > cached_time_left s + 30 then u else cycle_uploaded_start s)"
  "reannounce_time (sync_cycle now u tleft s) =
     (if cycle_synced s \<and> tleft > cached_time_left s + 30 then now + tleft else reannounce_time s)"
  "cached_time_left (sync_cycle now u tleft s) = tleft"
  "cycle_synced (sync_cycle now u tleft s) = (cycle_synced s \<or> tleft > 0)"
  "last_limit (sync_cycle now u tleft s) = last_limit s"
  "last_limit_reason (sync_cycle now u tleft s) = last_limit_reason s"
  "last_log_time (sync_cycle now u tleft s) = last_log_time s"
  "hash (sync_cycle now u tleft s) = hash s"
  by (simp_all add: sync_cycle_def new_cycle_def Let_def)


lemma calculate_limit_state:
  "snd (calculate_limit s u now tleft) =
     s\<lparr>pid := (if tleft \<le> 0 then set_phase (state_get_phase s now) (pid s)
               else snd (PID_update
                          (real_of_int (target_speed s) * (now - cycle_start s + tleft))
                          (real_of_int (get_cycle_uploaded s u)) now
                          (set_phase (state_get_phase s now) (pid s))))\<rparr>"
  unfolding calculate_limit_def Let_def get_cycle_uploaded_def by simp


lemma apply_limit_cases:
  "apply_limit qbm inst h lr (s, calls) =
     (if fst lr = last_limit s then (s, calls)
      else if set_upload_limit qbm inst h (fst lr) = Inr ()
           then (s\<lparr>last_limit := fst lr, last_limit_reason := snd lr\<rparr>, calls @ [(inst, h, fst lr)])
           else (s, calls @ [(inst, h, fst lr)]))"
  by (cases "set_upload_limit qbm inst h (fst lr)") (simp_all add: apply_limit_def Let_def)

lemma get_reannounce_time_keeps:
  "cycle_synced (fst (snd (get_reannounce_time mgr client h tr now (s, st)))) = cycle_synced s"
  "cycle_index (fst (snd (get_reannounce_time mgr client h tr now (s, st)))) = cycle_index s"
  "cycle_start (fst (snd (get_reannounce_time mgr client h tr now (s, st)))) = cycle_start s"
  "cycle_uploaded_start (fst (snd (get_reannounce_time mgr client h tr now (s, st)))) = cycle_uploaded_start s"
  "cached_time_left (fst (snd (get_reannounce_time mgr client h tr now (s, st)))) = cached_time_left s"
  "last_limit (fst (snd (get_reannounce_time mgr client h tr now (s, st)))) = last_limit s"
  "last_limit_reason (fst (snd (get_reannounce_time mgr client h tr now (s, st)))) = last_limit_reason s"
  "last_log_time (fst (snd (get_reannounce_time mgr client h tr now (s, st)))) = last_log_time s"
  "hash (fst (snd (get_reannounce_time mgr client h tr now (s, st)))) = hash s"
  using get_reannounce_time_shape [of mgr client h tr now s st] by auto

lemma prepare_state_keeps:
  "cycle_synced (prepare_state inst t rule now s) = cycle_synced s"
  "cycle_index (prepare_state inst t rule now s) = cycle_index s"
  "cycle_start (prepare_state inst t rule now s) = cycle_start s"
  "cycle_uploaded_start (prepare_state inst t rule now s) = cycle_uploaded_start s"
  "cached_time_left (prepare_state inst t rule now s) = cached_time_left s"
  "reannounce_time (prepare_state inst t rule now s) = reannounce_time s"
  "last_limit (prepare_state inst t rule now s) = last_limit s"
  "last_limit_reason (prepare_state inst t rule now s) = last_limit_reason s"
  "last_log_time (prepare_state inst t rule now s) = last_log_time s"
  "hash (prepare_state inst t rule now s) = hash s"
  by (simp_all add: prepare_state_def Let_def)

lemma tick_limit_fields:
  fixes s' :: TorrentLimitState
  assumes "s' = fst (snd (tick_limit mgr client inst h t rule now (s, st)))"
  shows "cached_time_left s' =
       fst (fst (get_reannounce_time mgr client h (getd [] (t_tracker t)) now
                  (prepare_state inst t rule now s, st)))"
    and "cycle_index s' =
       (if cycle_synced s \<and> cached_time_left s' > cached_time_left s + 30
        then cycle_index s + 1 else cycle_index s)"
    and "cycle_start s' =
       (if cycle_synced s \<and> cached_time_left s' > cached_time_left s + 30
        then now else cycle_start s)"
    and "cycle_uploaded_start s' =
       (if cycle_synced s \<and> cached_time_left s' > cached_time_left s + 30
        then getd 0 (t_uploaded t) else cycle_uploaded_start s)"
    and "cycle_synced s' = (cycle_synced s \<or> cached_time_left s' > 0)"
    and "last_limit s' = last_limit s"
    and "last_limit_reason s' = last_limit_reason s"
    and "last_log_time s' = last_log_time s"
    and "hash s' = hash s"
proof -
  define s2 where "s2 = prepare_state inst t rule now s"
  define r where "r = get_reannounce_time mgr client h (getd [] (t_tracker t)) now (s2, st)"
  define s3 where "s3 = (fst (snd r))\<lparr>reannounce_source := snd (fst r)\<rparr>"
  define s4 where "s4 = sync_cycle now (getd 0 (t_uploaded t)) (fst (fst r)) s3"
  have "s' = snd (calculate_limit s4 (getd 0 (t_uploaded t)) now (fst (fst r)))"
    unfolding assms tick_limit_def Let_def s4_def s3_def r_def s2_def by simp
  then have s': "s' = s4\<lparr>pid := pid s'\<rparr>"
    using calculate_limit_state [of s4 "getd 0 (t_uploaded t)" now "fst (fst r)"] by simp
  have k3: "cycle_synced s3 = cycle_synced s" "cycle_index s3 = cycle_index s"
    "cycle_start s3 = cycle_start s" "cycle_uploaded_start s3 = cycle_uploaded_start s"
    "cached_time_left s3 = cached_time_left s" "last_limit s3 = last_limit s"
    "last_limit_reason s3 = last_limit_reason s" "last_log_time s3 = last_log_time s"
    "hash s3 = hash s"
    unfolding s3_def r_def s2_def by (simp_all add: get_reannounce_time_keeps prepare_state_keeps)
  have c: "cached_time_left s' = fst (fst r)"
    by (subst s') (simp add: s4_def sync_cycle_fields)
  then show "cached_time_left s' =
       fst (fst (get_reannounce_time mgr client h (getd [] (t_tracker t)) now
                  (prepare_state inst t rule now s, st)))"
    unfolding r_def s2_def .
  show "cycle_index s' =
       (if cycle_synced s \<and> cached_time_left s' > cached_time_left s + 30
        then cycle_index s + 1 else cycle_index s)"
    unfolding c by (subst s') (simp add: s4_def sync_cycle_fields k3)
  show "cycle_start s' =
       (if cycle_synced s \<and> cached_time_left s' > cached_time_left s + 30
        then now else cycle_start s)"
    unfolding c by (subst s') (simp add: s4_def sync_cycle_fields k3)
  show "cycle_uploaded_start s' =
       (if cycle_synced s \<and> cached_time_left s' > cached_time_left s + 30
        then getd 0 (t_uploaded t) else cycle_uploaded_start s)"
    unfolding c by (subst s') (simp add: s4_def sync_cycle_fields k3)
  show "cycle_synced s' = (cycle_synced s \<or> cached_time_left s' > 0)"
    unfolding c by (subst s') (simp add: s4_def sync_cycle_fields k3)
  show "last_limit s' = last_limit s" by (subst s') (simp add: s4_def sync_cycle_fields k3)
  show "last_limit_reason s' = last_limit_reason s" by (subst s') (simp add: s4_def sync_cycle_fields k3)
  show "last_log_time s' = last_log_time s" by (subst s') (simp add: s4_def sync_cycle_fields k3)
  show "hash s' = hash s" by (subst s') (simp add: s4_def sync_cycle_fields k3)
qed

lemma process_state_unfold:
  "process_state mgr qbm inst client h t rule now (s, st, calls) =
     (let c = tick_limit mgr client inst h t rule now (s, st);
          a = apply_limit qbm inst h (fst c) (fst (snd c), calls)
      in ((if now - last_log_time (fst a) > LOG_INTERVAL then (fst a)\<lparr>last_log_time := now\<rparr> else fst a),
          snd (snd c), snd a))"
  by (simp add: process_state_def Let_def)

lemma apply_limit_keeps:
  "cycle_index (fst (apply_limit qbm inst h lr (s, calls))) = cycle_index s"
  "cycle_start (fst (apply_limit qbm inst h lr (s, calls))) = cycle_start s"
  "cycle_uploaded_start (fst (apply_limit qbm inst h lr (s, calls))) = cycle_uploaded_start s"
  "cycle_synced (fst (apply_limit qbm inst h lr (s, calls))) = cycle_synced s"
  "cached_time_left (fst (apply_limit qbm inst h lr (s, calls))) = cached_time_left s"
  "reannounce_time (fst (apply_limit qbm inst h lr (s, calls))) = reannounce_time s"
  "pid (fst (apply_limit qbm inst h lr (s, calls))) = pid s"
  "hash (fst (apply_limit qbm inst h lr (s, calls))) = hash s"
  by (simp_all add: apply_limit_cases)

lemma process_state_fields:
  fixes s' :: TorrentLimitState
  assumes "s' = fst (process_state mgr qbm inst client h t rule now (s, st, calls))"
  shows "cached_time_left s' =
       fst (fst (get_reannounce_time mgr client h (getd [] (t_tracker t)) now
                  (prepare_state inst t rule now s, st)))"
    and "cycle_index s' =
       (if cycle_synced s \<and> cached_time_left s' > cached_time_left s + 30
        then cycle_index s + 1 else cycle_index s)"
    and "cycle_start s' =
       (if cycle_synced s \<and> cached_time_left s' > cached_time_left s + 30
        then now else cycle_start s)"
    and "cycle_uploaded_start s' =
       (if cycle_synced s \<and> cached_time_left s' > cached_time_left s + 30
        then getd 0 (t_uploaded t) else cycle_uploaded_start s)"
    and "hash s' = hash s"
proof -
  define c where "c = tick_limit mgr client inst h t rule now (s, st)"
  define a where "a = apply_limit qbm inst h (fst c) (fst (snd c), calls)"
  have s': "s' = (if now - last_log_time (fst a) > LOG_INTERVAL then (fst a)\<lparr>last_log_time := now\<rparr> else fst a)"
    unfolding assms process_state_unfold a_def c_def Let_def by simp
  have f: "cached_time_left s' = cached_time_left (fst (snd c))"
    "cycle_index s' = cycle_index (fst (snd c))"
    "cycle_start s' = cycle_start (fst (snd c))"
    "cycle_uploaded_start s' = cycle_uploaded_start (fst (snd c))"
    "hash s' = hash (fst (snd c))"
    unfolding s' a_def by (simp_all add: apply_limit_keeps)
  note T = tick_limit_fields [OF c_def [THEN arg_cong [of _ _ "\<lambda>x. fst (snd x)"]]]
  show "cached_time_left s' =
       fst (fst (get_reannounce_time mgr client h (getd [] (t_tracker t)) now
                  (prepare_state inst t rule now s, st)))"
    unfolding f using T(1) .
  show "cycle_index s' =
       (if cycle_synced s \<and> cached_time_left s' > cached_time_left s + 30
        then cycle_index s + 1 else cycle_index s)"
    unfolding f using T(2) .
  show "cycle_start s' =
       (if cycle_synced s \<and> cached_time_left s' > cached_time_left s + 30
        then now else cycle_start s)"
    unfolding f using T(3) .
  show "cycle_uploaded_start s' =
       (if cycle_synced s \<and> cached_time_left s' > cached_time_left s + 30
        then getd 0 (t_uploaded t) else cycle_uploaded_start s)"
    unfolding f using T(4) .
  show "hash s' = hash s" unfolding f using T(9) .
qed

text \<open>
  \<^bold>\<open>C1.\<close> The claim as amended. Let \<open>s'\<close> be the state after a tick on the state \<open>s\<close>;
  \<open>cached_time_left s'\<close> is the oracle's answer on this tick. The cycle is reset exactly
  when \<open>s\<close> is synced and that answer exceeds \<open>cached_time_left s\<close> by more than 30: then
  \<open>cycle_index\<close> grows by one, \<open>cycle_start\<close> is \<open>now\<close> and \<open>cycle_uploaded_start\<close> is the
  reported uploaded count. Otherwise the three fields keep their values, whatever the
  reported count is. A reported count at or below \<open>cycle_uploaded_start\<close> gives a cycle
  upload of 0.
\<close>

theorem process_state_cycle_reset:
  assumes "s' = fst (process_state mgr qbm inst client h t rule now (s, st, calls))"
  shows "cached_time_left s' =
          fst (fst (get_reannounce_time mgr client h (getd [] (t_tracker t)) now
                     (prepare_state inst t rule now s, st)))
    \<and> (cycle_synced s \<and> cached_time_left s' > cached_time_left s + 30 \<longrightarrow>
          cycle_index s' = cycle_index s + 1 \<and> cycle_start s' = now
          \<and> cycle_uploaded_start s' = getd 0 (t_uploaded t)
          \<and> get_cycle_uploaded s' (getd 0 (t_uploaded t)) = 0)
    \<and> (\<not> (cycle_synced s \<and> cached_time_left s' > cached_time_left s + 30) \<longrightarrow>
          cycle_index s' = cycle_index s \<and> cycle_start s' = cycle_start s
          \<and> cycle_uploaded_start s' = cycle_uploaded_start s
          \<and> get_cycle_uploaded s' (getd 0 (t_uploaded t)) =
              max 0 (getd 0 (t_uploaded t) - cycle_uploaded_start s))
    \<and> (getd 0 (t_uploaded t) \<le> cycle_uploaded_start s' \<longrightarrow>
          get_cycle_uploaded s' (getd 0 (t_uploaded t)) = 0)"
proof -
  note F = process_state_fields [OF assms]
  show ?thesis
    unfolding get_cycle_uploaded_def using F(1) F(2) F(3) F(4) by simp
qed

theorem process_state_cycle_reset_witness:
  "cycle_index (fst (process_state no_helpers (ex_qb []) 1 (ex_client (Some 1780)) ''h1'' ex_torrent ex_rule 1100 (s_met, stats0, []))) = 1
   \<and> cycle_uploaded_start (fst (process_state no_helpers (ex_qb []) 1 (ex_client (Some 1780)) ''h1'' ex_torrent ex_rule 1100 (s_late, stats0, []))) = 500
   \<and> cycle_index (fst (process_state no_helpers (ex_qb []) 1 (ex_client (Some 55)) ''h1'' ex_torrent ex_rule 1100 (s_late, stats0, []))) = 0
   \<and> cycle_uploaded_start (fst (process_state no_helpers (ex_qb []) 1 (ex_client (Some 55)) ''h1'' ex_torrent ex_rule 1100 (s_late, stats0, []))) = 1000
   \<and> get_cycle_uploaded (fst (process_state no_helpers (ex_qb []) 1 (ex_client (Some 55)) ''h1'' ex_torrent ex_rule 1100 (s_late, stats0, []))) 500 = 0"
proof -
  have j1: "cycle_synced s_met \<and> cached_time_left (fst (process_state no_helpers (ex_qb []) 1 (ex_client (Some 1780)) ''h1'' ex_torrent ex_rule 1100 (s_met, stats0, []))) > cached_time_left s_met + 30"
    by code_simp
  have j2: "cycle_synced s_late \<and> cached_time_left (fst (process_state no_helpers (ex_qb []) 1 (ex_client (Some 1780)) ''h1'' ex_torrent ex_rule 1100 (s_late, stats0, []))) > cached_time_left s_late + 30"
    by code_simp
  have n: "\<not> (cycle_synced s_late \<and> cached_time_left (fst (process_state no_helpers (ex_qb []) 1 (ex_client (Some 55)) ''h1'' ex_torrent ex_rule 1100 (s_late, stats0, []))) > cached_time_left s_late + 30)"
    by code_simp
  have v: "cycle_index s_met = 0" "cycle_index s_late = 0" "cycle_uploaded_start s_late = 1000"
    "getd 0 (t_uploaded ex_torrent) = 500"
    by (simp_all add: s_met_def s_late_def TorrentLimitState_default_def ex_torrent_def getd_def)
  note T = process_state_cycle_reset [OF refl]
  from T [THEN conjunct2, THEN conjunct1, rule_format, OF j1]
    T [THEN conjunct2, THEN conjunct1, rule_format, OF j2]
    T [THEN conjunct2, THEN conjunct2, THEN conjunct1, rule_format, OF n]
  show ?thesis unfolding v by simp
qed

text \<open>
  The claim as stated fails: the tick below reports 500 uploaded bytes to a state whose
  \<open>cycle_uploaded_start\<close> is 1000; \<open>cycle_index\<close> is not incremented and
  \<open>cycle_uploaded_start\<close> stays above the reported count.
\<close>

theorem process_state_upload_decrease_counterexample:
  "getd 0 (t_uploaded ex_torrent) < cycle_uploaded_start s_late
   \<and> cycle_index (fst (process_state no_helpers (ex_qb []) 1 (ex_client (Some 55)) ''h1'' ex_torrent ex_rule 1100 (s_late, stats0, []))) = cycle_index s_late
   \<and> \<not> cycle_uploaded_start (fst (process_state no_helpers (ex_qb []) 1 (ex_client (Some 55)) ''h1'' ex_torrent ex_rule 1100 (s_late, stats0, []))) \<le> getd 0 (t_uploaded ex_torrent)"
  by code_simp

lemma process_state_limit:
  fixes L :: int
  assumes "L = fst (fst (tick_limit mgr client inst h t rule now (s, st)))"
  shows "snd (snd (process_state mgr qbm inst client h t rule now (s, st, calls))) =
           (if L = last_limit s then calls else calls @ [(inst, h, L)])"
    and "last_limit (fst (process_state mgr qbm inst client h t rule now (s, st, calls))) =
           (if L \<noteq> last_limit s \<and> set_upload_limit qbm inst h L = Inr () then L else last_limit s)"
    and "last_limit_reason (fst (process_state mgr qbm inst client h t rule now (s, st, calls))) =
           (if L \<noteq> last_limit s \<and> set_upload_limit qbm inst h L = Inr ()
            then snd (fst (tick_limit mgr client inst h t rule now (s, st)))
            else last_limit_reason s)"
proof -
  define c where "c = tick_limit mgr client inst h t rule now (s, st)"
  note T = tick_limit_fields [OF c_def [THEN arg_cong [of _ _ "\<lambda>x. fst (snd x)"]]]
  have L: "L = fst (fst c)" unfolding assms c_def ..
  show "snd (snd (process_state mgr qbm inst client h t rule now (s, st, calls))) =
           (if L = last_limit s then calls else calls @ [(inst, h, L)])"
    unfolding process_state_unfold Let_def c_def [symmetric] L
    by (simp add: apply_limit_cases T(6))
  show "last_limit (fst (process_state mgr qbm inst client h t rule now (s, st, calls))) =
           (if L \<noteq> last_limit s \<and> set_upload_limit qbm inst h L = Inr () then L else last_limit s)"
    unfolding process_state_unfold Let_def c_def [symmetric] L
    by (simp add: apply_limit_cases T(6))
  show "last_limit_reason (fst (process_state mgr qbm inst client h t rule now (s, st, calls))) =
           (if L \<noteq> last_limit s \<and> set_upload_limit qbm inst h L = Inr ()
            then snd (fst (tick_limit mgr client inst h t rule now (s, st)))
            else last_limit_reason s)"
    unfolding process_state_unfold Let_def c_def [symmetric] L
    by (simp add: apply_limit_cases T(6) T(7))
qed

lemma run_ticks_steady:
  assumes "set_upload_limit qbm inst h L = Inr ()"
  shows "ticks_compute L qbm inst h ticks (s, st, calls) \<Longrightarrow> last_limit s = L \<Longrightarrow>
     snd (snd (run_ticks qbm inst h ticks (s, st, calls))) = calls
     \<and> last_limit (fst (run_ticks qbm inst h ticks (s, st, calls))) = L
     \<and> last_limit_reason (fst (run_ticks qbm inst h ticks (s, st, calls))) = last_limit_reason s"
proof (induction ticks arbitrary: s st calls)
  case Nil
  then show ?case by simp
next
  case (Cons k ks)
  obtain s1 st1 calls1 where p: "process_state (tk_helpers k) qbm inst (tk_client k) h (tk_torrent k)
      (tk_rule k) (tk_now k) (s, st, calls) = (s1, st1, calls1)"
    by (cases "process_state (tk_helpers k) qbm inst (tk_client k) h (tk_torrent k)
      (tk_rule k) (tk_now k) (s, st, calls)") auto
  from Cons.prems have L: "L = fst (fst (tick_limit (tk_helpers k) (tk_client k) inst h (tk_torrent k)
      (tk_rule k) (tk_now k) (s, st)))"
    and rest: "ticks_compute L qbm inst h ks (s1, st1, calls1)"
    by (simp_all add: p)
  note P = process_state_limit [OF L, of qbm calls]
  have a: "calls1 = calls" "last_limit s1 = L" "last_limit_reason s1 = last_limit_reason s"
    using P Cons.prems(2) by (simp_all add: p)
  from Cons.IH [OF rest a(2)] show ?case by (simp add: p a)
qed

text \<open>
  \<^bold>\<open>C5.\<close> The claim as amended. A tick whose computed limit equals \<open>last_limit\<close> issues
  no \<^verbatim>\<open>set_upload_limit\<close> call. When one or more consecutive ticks all compute the limit
  \<open>L\<close> and the call for \<open>L\<close> succeeds, they issue exactly one call if \<open>last_limit\<close> differed
  from \<open>L\<close> before the first of them, and none if it was \<open>L\<close> already; afterwards
  \<open>last_limit\<close> is \<open>L\<close>, and \<open>last_limit_reason\<close> is the reason computed on the tick that
  issued the call.
\<close>

theorem run_ticks_one_rpc:
  "(fst (fst (tick_limit mgr client inst h t rule now (s, st))) = last_limit s \<longrightarrow>
      snd (snd (process_state mgr qbm inst client h t rule now (s, st, calls))) = calls)
   \<and> (ticks \<noteq> [] \<and> ticks_compute L qbm inst h ticks (s, st, calls)
       \<and> set_upload_limit qbm inst h L = Inr () \<longrightarrow>
      snd (snd (run_ticks qbm inst h ticks (s, st, calls))) =
        (if last_limit s = L then calls else calls @ [(inst, h, L)])
      \<and> last_limit (fst (run_ticks qbm inst h ticks (s, st, calls))) = L
      \<and> last_limit_reason (fst (run_ticks qbm inst h ticks (s, st, calls))) =
          (if last_limit s = L then last_limit_reason s
           else snd (fst (tick_limit (tk_helpers (hd ticks)) (tk_client (hd ticks)) inst h
                           (tk_torrent (hd ticks)) (tk_rule (hd ticks)) (tk_now (hd ticks)) (s, st)))))"
proof (intro conjI impI)
  assume "fst (fst (tick_limit mgr client inst h t rule now (s, st))) = last_limit s"
  then show "snd (snd (process_state mgr qbm inst client h t rule now (s, st, calls))) = calls"
    using process_state_limit(1) [OF refl, of mgr qbm inst client h t rule now s st calls] by simp
next
  assume A: "ticks \<noteq> [] \<and> ticks_compute L qbm inst h ticks (s, st, calls)
       \<and> set_upload_limit qbm inst h L = Inr ()"
  then obtain k ks where ticks: "ticks = k # ks" by (cases ticks) auto
  from A have ok: "set_upload_limit qbm inst h L = Inr ()" by simp
  obtain s1 st1 calls1 where p: "process_state (tk_helpers k) qbm inst (tk_client k) h (tk_torrent k)
      (tk_rule k) (tk_now k) (s, st, calls) = (s1, st1, calls1)"
    by (cases "process_state (tk_helpers k) qbm inst (tk_client k) h (tk_torrent k)
      (tk_rule k) (tk_now k) (s, st, calls)") auto
  from A have L: "L = fst (fst (tick_limit (tk_helpers k) (tk_client k) inst h (tk_torrent k)
      (tk_rule k) (tk_now k) (s, st)))"
    and rest: "ticks_compute L qbm inst h ks (s1, st1, calls1)"
    by (simp_all add: ticks p)
  note P = process_state_limit [OF L, of qbm calls]
  have a: "calls1 = (if last_limit s = L then calls else calls @ [(inst, h, L)])"
    "last_limit s1 = L"
    "last_limit_reason s1 = (if last_limit s = L then last_limit_reason s
        else snd (fst (tick_limit (tk_helpers k) (tk_client k) inst h
                           (tk_torrent k) (tk_rule k) (tk_now k) (s, st))))"
    using P ok by (auto simp: p)
  note R = run_ticks_steady [OF ok rest a(2)]
  have run: "run_ticks qbm inst h ticks (s, st, calls) = run_ticks qbm inst h ks (s1, st1, calls1)"
    by (simp add: ticks p)
  show "snd (snd (run_ticks qbm inst h ticks (s, st, calls))) =
        (if last_limit s = L then calls else calls @ [(inst, h, L)])"
    unfolding run using R a(1) by simp
  show "last_limit (fst (run_ticks qbm inst h ticks (s, st, calls))) = L"
    unfolding run using R by simp
  show "last_limit_reason (fst (run_ticks qbm inst h ticks (s, st, calls))) =
          (if last_limit s = L then last_limit_reason s
           else snd (fst (tick_limit (tk_helpers (hd ticks)) (tk_client (hd ticks)) inst h
                           (tk_torrent (hd ticks)) (tk_rule (hd ticks)) (tk_now (hd ticks)) (s, st))))"
    unfolding run using R a(3) by (simp add: ticks)
qed

theorem run_ticks_one_rpc_witness:
  "snd (snd (run_ticks (ex_qb []) 1 ''h1''
       [(ex_tick 60 1100)\<lparr>tk_torrent := near_torrent\<rparr>, (ex_tick 55 1105)\<lparr>tk_torrent := near_torrent\<rparr>]
       (s_met, stats0, []))) = [(1, ''h1'', 4096)]
   \<and> last_limit (fst (run_ticks (ex_qb []) 1 ''h1''
       [(ex_tick 60 1100)\<lparr>tk_torrent := near_torrent\<rparr>, (ex_tick 55 1105)\<lparr>tk_torrent := near_torrent\<rparr>]
       (s_met, stats0, []))) = 4096
   \<and> snd (snd (process_state no_helpers (ex_qb []) 1 failing_client ''h1'' ex_torrent ex_rule 1200
       (s_met, stats0, []))) = []"
proof -
  have c1: "fst (fst (tick_limit no_helpers failing_client 1 ''h1'' ex_torrent ex_rule 1200 (s_met, stats0)))
      = last_limit s_met"
    by code_simp
  have c2: "[(ex_tick 60 1100)\<lparr>tk_torrent := near_torrent\<rparr>, (ex_tick 55 1105)\<lparr>tk_torrent := near_torrent\<rparr>] \<noteq> []
     \<and> ticks_compute 4096 (ex_qb []) 1 ''h1''
          [(ex_tick 60 1100)\<lparr>tk_torrent := near_torrent\<rparr>, (ex_tick 55 1105)\<lparr>tk_torrent := near_torrent\<rparr>]
          (s_met, stats0, [])
     \<and> set_upload_limit (ex_qb []) 1 ''h1'' 4096 = Inr ()"
    by code_simp
  have v: "last_limit s_met = - 1"
    by (simp add: s_met_def TorrentLimitState_default_def)
  from run_ticks_one_rpc [THEN conjunct1, rule_format, OF c1]
    run_ticks_one_rpc [THEN conjunct2, rule_format, OF c2]
  show ?thesis unfolding v by simp
qed

text \<open>
  The claim as stated fails where \<open>last_limit\<close> already is the computed limit: two
  consecutive ticks that both compute -1 on a state with \<open>last_limit = -1\<close> issue no call.
\<close>

theorem run_ticks_no_rpc_counterexample:
  "ticks_compute (- 1) (ex_qb []) 1 ''h1'' [idle_tick 1200, idle_tick 1205] (s_met, stats0, [])
   \<and> set_upload_limit (ex_qb []) 1 ''h1'' (- 1) = Inr ()
   \<and> snd (snd (run_ticks (ex_qb []) 1 ''h1'' [idle_tick 1200, idle_tick 1205] (s_met, stats0, []))) = []"
  by code_simp

section \<open>Properties of the phase of a tick\<close>



lemma state_get_phase_pid [simp]: "state_get_phase (s\<lparr>pid := p\<rparr>) now = state_get_phase s now"
  by (simp add: state_get_phase_def)








section \<open>The state table only grows\<close>

lemma process_torrent_tracked:
  assumes "process_torrent mgr qbm inst client t rule now eng = Inr eng'"
  shows "\<exists>h. t_hash t = Some h \<and> tracked eng' = insert h (tracked eng)"
proof (cases "t_hash t")
  case None
  with assms show ?thesis by (simp add: process_torrent_def)
next
  case (Some h)
  with assms have "states eng' = AList.update h
      (fst (process_state mgr qbm inst client h t rule now
         (case map_of (states eng) h of None \<Rightarrow> initial_state inst h t rule now | Some s \<Rightarrow> s,
          eng_stats eng, rpc_log eng))) (states eng)"
    by (auto simp: process_torrent_def Let_def)
  then show ?thesis using Some by (simp add: tracked_def dom_update)
qed

lemma process_torrents_tracked:
  "tracked (fst ec) \<subseteq> tracked (fst (snd (process_torrents ev d rules inst client now ts ec)))"
proof (induction ts arbitrary: ec)
  case Nil
  then show ?case by simp
next
  case (Cons t ts)
  show ?case
  proof (cases "should_limit_torrent t")
    case False
    then show ?thesis using Cons.IH [of ec] by simp
  next
    case True
    show ?thesis
    proof (cases "find_rule (env_hostname ev) d t rules")
      case (Inl e)
      with True show ?thesis by simp
    next
      case (Inr ro)
      show ?thesis
      proof (cases ro)
        case None
        with True Inr show ?thesis using Cons.IH [of ec] by simp
      next
        case (Some rule)
        show ?thesis
        proof (cases "process_torrent (env_helpers ev) (env_qb ev) inst client t rule now (fst ec)")
          case pl: (Inl e)
          with True Inr Some show ?thesis by simp
        next
          case pr: (Inr eng')
          from process_torrent_tracked [OF pr] have "tracked (fst ec) \<subseteq> tracked eng'" by auto
          moreover have "tracked eng' \<subseteq> tracked (fst (snd (process_torrents ev d rules inst client now ts (eng', snd ec + 1))))"
            using Cons.IH [of "(eng', snd ec + 1)"] by simp
          ultimately show ?thesis using True Inr Some pr by simp
        qed
      qed
    qed
  qed
qed

lemma process_instances_tracked:
  "tracked (fst ec) \<subseteq> tracked (fst (snd (process_instances ev d rules now insts ec)))"
proof (induction insts arbitrary: ec)
  case Nil
  then show ?case by simp
next
  case (Cons i rest)
  show ?case
  proof (cases "i_enabled i")
    case False
    then show ?thesis using Cons.IH [of ec] by simp
  next
    case True
    show ?thesis
    proof (cases "get_client (env_qb ev) (i_id i)")
      case None
      with True show ?thesis using Cons.IH [of ec] by simp
    next
      case (Some client)
      show ?thesis
      proof (cases "get_torrents (env_qb ev) (i_id i)")
        case (Inl e)
        with True Some show ?thesis using Cons.IH [of ec] by simp
      next
        case (Inr torrents)
        obtain err ec1 where p: "process_torrents ev d rules (i_id i) client now torrents ec = (err, ec1)"
          by (cases "process_torrents ev d rules (i_id i) client now torrents ec") auto
        have s1: "tracked (fst ec) \<subseteq> tracked (fst ec1)"
          using process_torrents_tracked [of ec ev d rules "i_id i" client now torrents] p by simp
        show ?thesis
        proof (cases err)
          case None
          with True Some Inr p s1 show ?thesis using Cons.IH [of ec1] by auto
        next
          case (Some e)
          with True \<open>get_client (env_qb ev) (i_id i) = Some client\<close> Inr p s1 show ?thesis by simp
        qed
      qed
    qed
  qed
qed

lemma process_all_tracked: "tracked eng \<subseteq> tracked (snd (process_all ev d now eng))"
proof (cases "speed_rules d")
  case (Inl e)
  then show ?thesis by (simp add: process_all_def)
next
  case (Inr rules)
  show ?thesis
  proof (cases "enabled_rules_of rules = []")
    case True
    with Inr show ?thesis by (simp add: process_all_def)
  next
    case ne: False
    show ?thesis
    proof (cases "qb_instances d")
      case (Inl e)
      with Inr ne show ?thesis by (simp add: process_all_def)
    next
      case insts: (Inr instances)
      show ?thesis
      proof (cases "instances = []")
        case True
        with Inr ne insts show ?thesis by (simp add: process_all_def)
      next
        case False
        obtain err e1 n1 where p:
          "process_instances ev d (enabled_rules_of rules) now instances (eng, 0) = (err, e1, n1)"
          by (cases "process_instances ev d (enabled_rules_of rules) now instances (eng, 0)") auto
        have sub: "tracked eng \<subseteq> tracked e1"
          using process_instances_tracked [of "(eng, 0)" ev d "enabled_rules_of rules" now instances] p
          by simp
        have k: "tracked (e1\<lparr>eng_stats := x\<rparr>) = tracked e1" for x by (simp add: tracked_def)
        show ?thesis
        proof (cases err)
          case None
          with Inr ne insts False p sub k show ?thesis by (simp add: process_all_def)
        next
          case (Some e)
          with Inr ne insts False p sub show ?thesis by (simp add: process_all_def)
        qed
      qed
    qed
  qed
qed

lemma restore_rows_tracked: "fst ` set sts \<subseteq> fst ` set (restore_rows now rows sts)"
proof (induction rows arbitrary: sts)
  case Nil
  then show ?case by simp
next
  case (Cons data rest)
  show ?case
  proof (cases "now - getd 0 (row_updated_at data) > 86400")
    case True
    then show ?thesis using Cons.IH [of sts] by simp
  next
    case False
    show ?thesis
    proof (cases "row_hash data")
      case None
      with False show ?thesis by simp
    next
      case (Some h)
      have "fst ` set sts \<subseteq> fst ` set (AList.update h (restore_row data h) sts)"
        by (auto simp: dom_update)
      also have "\<dots> \<subseteq> fst ` set (restore_rows now rest (AList.update h (restore_row data h) sts))"
        by (rule Cons.IH)
      finally show ?thesis using False Some by simp
    qed
  qed
qed

lemma save_states_tracked: "tracked (fst (save_states_to_db now (eng, d))) = tracked eng"
  by (simp add: save_states_to_db_def tracked_def Let_def)

lemma run_loop_step_tracked: "tracked eng \<subseteq> tracked (fst (run_loop_step ev now (eng, d)))"
proof -
  obtain err e1 where p: "process_all ev d now eng = (err, e1)"
    by (cases "process_all ev d now eng") auto
  have sub: "tracked eng \<subseteq> tracked e1" using process_all_tracked [of eng ev d now] p by simp
  show ?thesis
  proof (cases err)
    case None
    with p sub show ?thesis by (simp add: run_loop_step_def save_states_tracked)
  next
    case (Some e)
    with p sub show ?thesis by (simp add: run_loop_step_def)
  qed
qed

text \<open>
  \<^bold>\<open>C10.\<close> No operation of the governor removes a hash from the state table.
  \<^verbatim>\<open>_process_torrent\<close> keeps every tracked hash and tracks the torrent's own;
  \<^verbatim>\<open>_process_all\<close>, a pass of \<^verbatim>\<open>_run_loop\<close> and the restore at start keep every
  tracked hash, whatever the clients enumerate; saving and \<^verbatim>\<open>stop\<close> leave the table as
  it is. The auto-remove engine has no access to the table.
\<close>

theorem tracked_never_shrinks:
  "(case process_torrent mgr qbm inst client t rule now eng of
      Inl e \<Rightarrow> True
    | Inr eng' \<Rightarrow> tracked eng \<subseteq> tracked eng' \<and> (\<exists>h. t_hash t = Some h \<and> h \<in> tracked eng'))
   \<and> tracked eng \<subseteq> tracked (snd (process_all ev d now eng))
   \<and> tracked eng \<subseteq> tracked (fst (run_loop_step ev now (eng, d)))
   \<and> tracked eng \<subseteq> tracked (restore_states_from_db d now eng)
   \<and> tracked (fst (save_states_to_db now (eng, d))) = tracked eng
   \<and> tracked (fst (stop now (eng, d))) = tracked eng"
proof -
  have a: "(case process_torrent mgr qbm inst client t rule now eng of
      Inl e \<Rightarrow> True
    | Inr eng' \<Rightarrow> tracked eng \<subseteq> tracked eng' \<and> (\<exists>h. t_hash t = Some h \<and> h \<in> tracked eng'))"
  proof (cases "process_torrent mgr qbm inst client t rule now eng")
    case (Inl e)
    then show ?thesis by simp
  next
    case (Inr eng')
    from process_torrent_tracked [OF Inr] show ?thesis using Inr by auto
  qed
  have r: "tracked eng \<subseteq> tracked (restore_states_from_db d now eng)"
    using restore_rows_tracked [of "states eng" now "get_all_torrent_limit_states d"]
    by (simp add: restore_states_from_db_def tracked_def)
  from a process_all_tracked run_loop_step_tracked r save_states_tracked
  show ?thesis by (simp add: stop_def)
qed

theorem tracked_never_shrinks_witness:
  "tracked ex_engine = {''h0''}
   \<and> tracked (snd (process_all ex_env (ex_db []) 1000 ex_engine)) = {''h0'', ''h1''}
   \<and> tracked (fst (run_loop_step (ex_env\<lparr>env_qb := ex_qb []\<rparr>) 1005
        (snd (process_all ex_env (ex_db []) 1000 ex_engine), ex_db []))) = {''h0'', ''h1''}"
proof -
  have k1: "map fst (states ex_engine) = [''h0'']" by code_simp
  have k2: "map fst (states (snd (process_all ex_env (ex_db []) 1000 ex_engine))) = [''h0'', ''h1'']"
    by code_simp
  have k3: "map fst (states (fst (run_loop_step (ex_env\<lparr>env_qb := ex_qb []\<rparr>) 1005
        (snd (process_all ex_env (ex_db []) 1000 ex_engine), ex_db [])))) = [''h0'', ''h1'']"
    by code_simp
  have t: "tracked e = set (map fst (states e))" for e by (simp add: tracked_def)
  from tracked_never_shrinks [where eng = ex_engine and ev = ex_env and d = "ex_db []" and now = 1000,
      THEN conjunct2, THEN conjunct1]
  show ?thesis unfolding t k1 k2 k3 by auto
qed

section \<open>Persistence round trip\<close>

lemma save_one_table:
  "limit_states (save_torrent_limit_state t row d) =
     AList.update (getd [] (row_hash row)) (row\<lparr>row_updated_at := Some t\<rparr>) (limit_states d)"
  by (simp add: save_torrent_limit_state_def)

lemma save_one_wf:
  assumes "store_wf d" "row_hash row \<noteq> None"
  shows "store_wf (save_torrent_limit_state t row d)"
proof -
  obtain k where k: "row_hash row = Some k" using assms(2) by auto
  have "list_all (\<lambda>(k, row). row_hash row = Some k) (AList.update k (row\<lparr>row_updated_at := Some t\<rparr>) al)"
    if "list_all (\<lambda>(k, row). row_hash row = Some k) al" for al
    using that k by (induction al) auto
  then show ?thesis using assms(1) k
    by (simp add: store_wf_def save_one_table getd_def distinct_update)
qed

lemma fold_save_table:
  assumes "distinct (map fst sts)" "list_all (\<lambda>(k, s). hash s = k) sts"
  shows "map_of (limit_states (fold (\<lambda>(h, s). save_torrent_limit_state t (state_row s)) sts d)) h =
     (case map_of sts h of
        Some s \<Rightarrow> Some ((state_row s)\<lparr>row_updated_at := Some t\<rparr>)
      | None \<Rightarrow> map_of (limit_states d) h)"
  using assms
proof (induction sts arbitrary: d)
  case Nil
  then show ?case by simp
next
  case (Cons p sts)
  obtain k s where p: "p = (k, s)" by (cases p)
  from Cons.prems p have hk: "hash s = k" and dist: "distinct (map fst sts)" and nk: "k \<notin> fst ` set sts"
    and rest: "list_all (\<lambda>(k, s). hash s = k) sts"
    by auto
  have rh: "getd [] (row_hash (state_row s)) = k" by (simp add: state_row_def getd_def hk)
  have nk': "map_of sts k = None" using nk by (simp add: map_of_eq_None_iff)
  have "map_of (limit_states (fold (\<lambda>(h, s). save_torrent_limit_state t (state_row s)) (p # sts) d)) h =
      map_of (limit_states (fold (\<lambda>(h, s). save_torrent_limit_state t (state_row s)) sts
                (save_torrent_limit_state t (state_row s) d))) h"
    by (simp add: p)
  also have "\<dots> = (case map_of sts h of
        Some s \<Rightarrow> Some ((state_row s)\<lparr>row_updated_at := Some t\<rparr>)
      | None \<Rightarrow> map_of (limit_states (save_torrent_limit_state t (state_row s) d)) h)"
    by (rule Cons.IH [OF dist rest])
  also have "\<dots> = (case map_of (p # sts) h of
        Some s \<Rightarrow> Some ((state_row s)\<lparr>row_updated_at := Some t\<rparr>)
      | None \<Rightarrow> map_of (limit_states d) h)"
    using nk' by (auto simp: p save_one_table rh update_conv' split: option.splits)
  finally show ?case .
qed

lemma fold_save_wf:
  "store_wf d \<Longrightarrow> store_wf (fold (\<lambda>(h, s). save_torrent_limit_state t (state_row s)) sts d)"
proof (induction sts arbitrary: d)
  case Nil
  then show ?case by simp
next
  case (Cons p sts)
  obtain k s where p: "p = (k, s)" by (cases p)
  have "store_wf (save_torrent_limit_state t (state_row s) d)"
    by (rule save_one_wf [OF Cons.prems]) (simp add: state_row_def)
  from Cons.IH [OF this] show ?case by (simp add: p)
qed

lemma restore_rows_table:
  assumes "distinct (map fst tbl)" "list_all (\<lambda>(k, row). row_hash row = Some k) tbl"
  shows "map_of (restore_rows now (map snd tbl) sts) h =
     (case map_of tbl h of
        Some row \<Rightarrow> if now - getd 0 (row_updated_at row) > 86400 then map_of sts h
                    else Some (restore_row row h)
      | None \<Rightarrow> map_of sts h)"
  using assms
proof (induction tbl arbitrary: sts)
  case Nil
  then show ?case by simp
next
  case (Cons p tbl)
  obtain k row where p: "p = (k, row)" by (cases p)
  from Cons.prems p have rk: "row_hash row = Some k" and dist: "distinct (map fst tbl)"
    and nk: "k \<notin> fst ` set tbl" and rest: "list_all (\<lambda>(k, row). row_hash row = Some k) tbl"
    by auto
  have nk': "map_of tbl k = None" using nk by (simp add: map_of_eq_None_iff)
  note IH = Cons.IH [OF dist rest]
  show ?case
  proof (cases "now - getd 0 (row_updated_at row) > 86400")
    case True
    then show ?thesis using IH [of sts] nk' by (auto simp: p split: option.splits)
  next
    case False
    then show ?thesis
      using IH [of "AList.update k (restore_row row k) sts"] nk'
      by (auto simp: p rk update_conv' split: option.splits)
  qed
qed

lemma restore_saved_row:
  "restore_row ((state_row s)\<lparr>row_updated_at := Some t\<rparr>) (hash s) =
     s\<lparr>reannounce_source := Unknown, last_limit_reason := NoReason,
       pid := PIDController_init, kalman := KalmanFilter_init, last_log_time := 0\<rparr>"
  by (simp add: restore_row_def state_row_def TorrentLimitState_default_def getd_def)

lemma states_wf_update:
  assumes "states_wf sts" "hash s = k"
  shows "states_wf (AList.update k s sts)"
proof -
  have "list_all (\<lambda>(k, s). hash s = k) (AList.update k s al)"
    if "list_all (\<lambda>(k, s). hash s = k) al" for al
    using that assms(2) by (induction al) auto
  then show ?thesis using assms(1) by (simp add: states_wf_def distinct_update)
qed

lemma restore_rows_wf: "states_wf sts \<Longrightarrow> states_wf (restore_rows now rows sts)"
proof (induction rows arbitrary: sts)
  case Nil
  then show ?case by simp
next
  case (Cons data rest)
  show ?case
  proof (cases "row_hash data")
    case None
    then show ?thesis using Cons by simp
  next
    case (Some h)
    have "hash (restore_row data h) = h"
      by (simp add: restore_row_def TorrentLimitState_default_def)
    from states_wf_update [OF Cons.prems this] Cons.IH Cons.prems Some show ?thesis by simp
  qed
qed

lemma engine_init_wf: "states_wf (states (engine_init d now))"
proof -
  have "states_wf []" by (simp add: states_wf_def)
  from restore_rows_wf [OF this] show ?thesis
    by (simp add: engine_init_def restore_states_from_db_def)
qed

lemma process_torrent_wf:
  assumes "states_wf (states eng)" "process_torrent mgr qbm inst client t rule now eng = Inr eng'"
  shows "states_wf (states eng')"
proof (cases "t_hash t")
  case None
  with assms(2) show ?thesis by (simp add: process_torrent_def)
next
  case (Some h)
  define s0 where "s0 = (case map_of (states eng) h of
      None \<Rightarrow> initial_state inst h t rule now | Some s \<Rightarrow> s)"
  have h0: "hash s0 = h"
  proof (cases "map_of (states eng) h")
    case None
    then show ?thesis by (simp add: s0_def initial_state_def TorrentLimitState_default_def)
  next
    case (Some s)
    then have "(h, s) \<in> set (states eng)" by (rule map_of_SomeD)
    then have "hash s = h" using assms(1) by (auto simp: states_wf_def list_all_iff)
    with Some show ?thesis by (simp add: s0_def)
  qed
  have e: "states eng' = AList.update h
      (fst (process_state mgr qbm inst client h t rule now (s0, eng_stats eng, rpc_log eng))) (states eng)"
    using assms(2) Some by (auto simp: process_torrent_def Let_def s0_def)
  have "hash (fst (process_state mgr qbm inst client h t rule now (s0, eng_stats eng, rpc_log eng))) = h"
    using process_state_fields(5) [OF refl, of mgr qbm inst client h t rule now s0 "eng_stats eng" "rpc_log eng"] h0
    by simp
  from states_wf_update [OF assms(1) this] show ?thesis unfolding e .
qed

text \<open>
  \<^bold>\<open>C8.\<close> Saving at \<open>t_save\<close> and restoring at \<open>t_now\<close> in a new engine. An entry \<open>s\<close> of
  the state table whose age \<open>t_now - t_save\<close> is at most 86400 is restored under its hash as
  \<open>s\<close> with the PID controller and the Kalman filter at their initial values and the three
  fields that are not persisted (\<open>reannounce_source\<close>, \<open>last_limit_reason\<close>, \<open>last_log_time\<close>)
  at their defaults: the fourteen persisted fields are those of \<open>s\<close>. An older entry is not
  restored. The state table and the store's table hold each hash once, under its own hash.
\<close>

theorem save_restore_roundtrip:
  assumes "states_wf (states eng)" and "store_wf d" and "map_of (states eng) h = Some s"
  shows "(t_now - t_save \<le> 86400 \<longrightarrow>
          map_of (states (engine_init (snd (save_states_to_db t_save (eng, d))) t_now)) h =
            Some (s\<lparr>reannounce_source := Unknown, last_limit_reason := NoReason,
                    pid := PIDController_init, kalman := KalmanFilter_init, last_log_time := 0\<rparr>))
    \<and> (t_now - t_save > 86400 \<longrightarrow>
          map_of (states (engine_init (snd (save_states_to_db t_save (eng, d))) t_now)) h = None)"
proof -
  define d1 where "d1 = fold (\<lambda>(h, s). save_torrent_limit_state t_save (state_row s)) (states eng) d"
  have d1: "snd (save_states_to_db t_save (eng, d)) = d1"
    by (simp add: save_states_to_db_def Let_def d1_def)
  from assms(1) have dist: "distinct (map fst (states eng))"
    and keys: "list_all (\<lambda>(k, s). hash s = k) (states eng)"
    by (simp_all add: states_wf_def)
  from assms(3) have "(h, s) \<in> set (states eng)" by (rule map_of_SomeD)
  with keys have hs: "hash s = h" by (auto simp: list_all_iff)
  have row: "map_of (limit_states d1) h = Some ((state_row s)\<lparr>row_updated_at := Some t_save\<rparr>)"
    unfolding d1_def fold_save_table [OF dist keys] by (simp add: assms(3))
  have wf1: "store_wf d1" unfolding d1_def by (rule fold_save_wf [OF assms(2)])
  then have w: "distinct (map fst (limit_states d1))"
    "list_all (\<lambda>(k, row). row_hash row = Some k) (limit_states d1)"
    by (simp_all add: store_wf_def)
  have "map_of (states (engine_init d1 t_now)) h =
      (if t_now - t_save > 86400 then None
       else Some (restore_row ((state_row s)\<lparr>row_updated_at := Some t_save\<rparr>) h))"
    unfolding engine_init_def restore_states_from_db_def get_all_torrent_limit_states_def
    by (simp add: restore_rows_table [OF w] row getd_def)
  then show ?thesis
    unfolding d1 using restore_saved_row [where s = s and t = t_save] hs by auto
qed

theorem save_restore_roundtrip_witness:
  "map_of (states (engine_init (snd (save_states_to_db 1000 (ex_engine, ex_db []))) 2000)) ''h0'' =
     Some ((TorrentLimitState_default ''h0'')\<lparr>last_limit := 4096\<rparr>)
   \<and> map_of (states (engine_init (snd (save_states_to_db 1000 (ex_engine, ex_db []))) 90000)) ''h0'' = None"
proof -
  have a: "states_wf (states ex_engine)"
    by (simp add: states_wf_def ex_engine_def TorrentLimitState_default_def)
  have b: "store_wf (ex_db [])" by (simp add: store_wf_def ex_db_def)
  have c: "map_of (states ex_engine) ''h0'' = Some ((TorrentLimitState_default ''h0'')\<lparr>last_limit := 4096\<rparr>)"
    by (simp add: ex_engine_def)
  have e: "(TorrentLimitState_default ''h0'')\<lparr>last_limit := 4096, reannounce_source := Unknown,
      last_limit_reason := NoReason, pid := PIDController_init, kalman := KalmanFilter_init,
      last_log_time := 0\<rparr> = (TorrentLimitState_default ''h0'')\<lparr>last_limit := 4096\<rparr>"
    by (simp add: TorrentLimitState_default_def)
  note T = save_restore_roundtrip [OF a b c]
  have f: "(2000::real) - 1000 \<le> 86400" "(90000::real) - 1000 > 86400" by simp_all
  from T [of 2000 1000, THEN conjunct1, rule_format, OF f(1)]
    T [of 90000 1000, THEN conjunct2, rule_format, OF f(2)]
  show ?thesis unfolding e by simp
qed

section \<open>Properties of the auto-remove engine\<close>

text \<open>
  \<^bold>\<open>C4.\<close> The claim as amended. A condition with the key \<^verbatim>\<open>no_peers_time_gt\<close> set to
  \<open>v\<close> matches exactly when the condition without that key matches and either
  \<open>last_activity \<le> 0\<close> (the check is skipped) or \<open>now - last_activity > v\<close>.
\<close>

theorem check_condition_no_peers_skip:
  "no_peers_time_gt c = Some v \<Longrightarrow>
     check_condition now t c free_space =
       (check_condition now t (c\<lparr>no_peers_time_gt := None\<rparr>) free_space
        \<and> (getd 0 (t_last_activity t) \<le> 0
            \<or> now - real_of_int (getd 0 (t_last_activity t)) > v))"
  unfolding check_condition_def Let_def by (simp add: not_le not_less)

theorem check_condition_no_peers_skip_witness:
  "check_condition 1000000 ex_torrent (no_condition\<lparr>no_peers_time_gt := Some 3600\<rparr>) 0
   \<and> check_condition 1000000 (ex_torrent\<lparr>t_last_activity := Some 900000\<rparr>) (no_condition\<lparr>no_peers_time_gt := Some 3600\<rparr>) 0
   \<and> \<not> check_condition 1000000 (ex_torrent\<lparr>t_last_activity := Some 999000\<rparr>) (no_condition\<lparr>no_peers_time_gt := Some 3600\<rparr>) 0"
proof -
  have k: "no_peers_time_gt (no_condition\<lparr>no_peers_time_gt := Some 3600\<rparr>) = Some 3600" by simp
  have n: "\<And>t. check_condition 1000000 t ((no_condition\<lparr>no_peers_time_gt := Some 3600\<rparr>)\<lparr>no_peers_time_gt := None\<rparr>) 0"
    by (simp add: check_condition_def no_condition_def getd_def)
  show ?thesis
    unfolding check_condition_no_peers_skip [OF k] using n
    by (simp add: ex_torrent_def getd_def)
qed

text \<open>
  The claim as stated fails: a torrent with \<open>last_activity = 0\<close> matches a condition that
  holds \<^verbatim>\<open>no_peers_time_gt\<close> only.
\<close>

theorem check_condition_no_peers_counterexample:
  "check_condition 1000000 ex_torrent (no_condition\<lparr>no_peers_time_gt := Some 3600\<rparr>) 0
   \<and> \<not> (getd 0 (t_last_activity ex_torrent) > 0
         \<and> 1000000 - real_of_int (getd 0 (t_last_activity ex_torrent)) > 3600)"
  by code_simp

lemma set_config_interval_bounds:
  "30 \<le> check_interval (fst (set_config (Some i) sl re en df ad))
   \<and> check_interval (fst (set_config (Some i) sl re en df ad)) \<le> 3600"
  by (simp add: set_config_def Let_def split: option.splits)

lemma set_config_sleep_bounds:
  "1 \<le> sleep_between (fst (set_config iv (Some j) re en df ad))
   \<and> sleep_between (fst (set_config iv (Some j) re en df ad)) \<le> 60"
  by (simp add: set_config_def Let_def split: option.splits)

lemma load_config_defaults:
  "map_of (config d) ''auto_remove_interval'' = None \<Longrightarrow> check_interval (load_config d a) = 60"
  "map_of (config d) ''auto_remove_sleep'' = None \<Longrightarrow> sleep_between (load_config d a) = 5"
  by (simp_all add: load_config_def config_int_def get_config_def getd_def)

text \<open>
  \<^bold>\<open>C9.\<close> The claim: the check interval is always in \<open>[30, 3600]\<close> and the sleep in
  \<open>[1, 60]\<close>. \<^verbatim>\<open>set_config\<close> clamps both (\<open>set_config_interval_bounds\<close>,
  \<open>set_config_sleep_bounds\<close>), and absent keys give 60 and 5 (\<open>load_config_defaults\<close>), but
  \<^verbatim>\<open>_load_config\<close> takes whatever integer the store holds: with
  \<^verbatim>\<open>auto_remove_interval = "5"\<close> and \<^verbatim>\<open>auto_remove_sleep = "600"\<close> it sets 5 and 600.
\<close>

theorem load_config_unclamped:
  "check_interval (load_config (ex_db [(''auto_remove_interval'', ''5''), (''auto_remove_sleep'', ''600'')])
      auto_remove_init) = 5
   \<and> sleep_between (load_config (ex_db [(''auto_remove_interval'', ''5''), (''auto_remove_sleep'', ''600'')])
      auto_remove_init) = 600"
  by code_simp

end
